theory Spec2Isabelle
  imports Main "HOL-Library.AList"
begin


section \<open>JavaScript values\<close>

text \<open>
  The values that flow through \<^verbatim>\<open>ReactMeteorData.jsx\<close>. An object is its list of own
  enumerable string-keyed properties, in insertion order, together with its class: a plain
  object (an object literal, whose prototype is \<^verbatim>\<open>Object.prototype\<close>), an \<^verbatim>\<open>Error\<close> with its
  message, a Mongo cursor, or any other object (an array, a date, an instance of a class, an
  object made by \<^verbatim>\<open>Object.create\<close>). A cursor and an object of the last kind carry the
  names of all the properties that they have beside the enumerable own ones, inherited or
  not enumerable (none for \<^verbatim>\<open>Object.create(null)\<close>); their classes are not code of this
  package, and what they inherit is taken not to be enumerable. A function is one declared
  with \<^verbatim>\<open>function\<close>, with no property added. Properties hold values (there are no
  getters beside \<^verbatim>\<open>__proto__\<close>), values have no identity (a snapshot shares nothing with
  \<^verbatim>\<open>component.data\<close>), and numbers are the integers.
\<close>

datatype obj_class =
    PlainObject
  | ErrorObject string
  | MongoCursor "string list"
  | OtherObject "string list"

datatype jsval =
    Undefined
  | Null
  | Bool bool
  | Num int
  | Str string
  | Func nat
  | Obj obj_class "(string \<times> jsval) list"

text \<open>A call either returns a value or throws one.\<close>

datatype 'a outcome = Normal 'a | Thrown jsval

definition new_Error :: "string \<Rightarrow> jsval" where
  "new_Error msg = Obj (ErrorObject msg) []"

definition TypeError :: jsval where
  "TypeError = new_Error ''TypeError''"

text \<open>\<^verbatim>\<open>if (v)\<close>: the falsy values are undefined, null, false, 0 and the empty string.\<close>

fun truthy :: "jsval \<Rightarrow> bool" where
  "truthy Undefined = False"
| "truthy Null = False"
| "truthy (Bool b) = b"
| "truthy (Num n) = (n \<noteq> 0)"
| "truthy (Str s) = (s \<noteq> [])"
| "truthy (Func f) = True"
| "truthy (Obj c ps) = True"

text \<open>\<^verbatim>\<open>typeof v\<close>; note \<^verbatim>\<open>typeof null === 'object'\<close>.\<close>

fun typeof :: "jsval \<Rightarrow> string" where
  "typeof Undefined = ''undefined''"
| "typeof Null = ''object''"
| "typeof (Bool b) = ''boolean''"
| "typeof (Num n) = ''number''"
| "typeof (Str s) = ''string''"
| "typeof (Func f) = ''function''"
| "typeof (Obj c ps) = ''object''"

text \<open>The decimal numeral of an index, the property name of a string's character.\<close>

fun index_key :: "nat \<Rightarrow> string" where
  "index_key n =
     (if n < 10 then [char_of (48 + n)]
      else index_key (n div 10) @ [char_of (48 + n mod 10)])"

text \<open>
  \<^verbatim>\<open>for (let key in v)\<close>: the enumerable property names of \<open>v\<close>. Looping over undefined,
  null, a boolean, a number or a function runs the body zero times; a string enumerates its
  indices.
\<close>

fun forin_keys :: "jsval \<Rightarrow> string list" where
  "forin_keys (Obj c ps) = remdups (map fst ps)"
| "forin_keys (Str s) = map index_key [0..<length s]"
| "forin_keys v = []"

text \<open>\<^verbatim>\<open>v[key]\<close> for a value that the loops above have enumerated.\<close>

fun get_prop :: "jsval \<Rightarrow> string \<Rightarrow> jsval" where
  "get_prop (Obj c ps) key = (case map_of ps key of Some x \<Rightarrow> x | None \<Rightarrow> Undefined)"
| "get_prop (Str s) key =
     (case find (\<lambda>i. index_key i = key) [0..<length s] of
        Some i \<Rightarrow> Str [s ! i]
      | None \<Rightarrow> Undefined)"
| "get_prop v key = Undefined"

text \<open>
  The properties of \<^verbatim>\<open>Object.prototype\<close>, which every object inherits; the properties that
  an object has beside the enumerable own ones, by its class (an error owns \<^verbatim>\<open>message\<close> and
  \<^verbatim>\<open>stack\<close> and inherits \<^verbatim>\<open>name\<close>); the properties of a function.
\<close>

definition object_prototype_names :: "string list" where
  "object_prototype_names =
     [''constructor'', ''hasOwnProperty'', ''isPrototypeOf'', ''propertyIsEnumerable'',
      ''toLocaleString'', ''toString'', ''valueOf'', ''__proto__'',
      ''__defineGetter__'', ''__defineSetter__'', ''__lookupGetter__'', ''__lookupSetter__'']"

fun inherited_names :: "obj_class \<Rightarrow> string list" where
  "inherited_names PlainObject = object_prototype_names"
| "inherited_names (ErrorObject msg) = [''message'', ''stack'', ''name''] @ object_prototype_names"
| "inherited_names (MongoCursor names) = names"
| "inherited_names (OtherObject names) = names"

definition function_names :: "string list" where
  "function_names =
     [''length'', ''name'', ''prototype'', ''arguments'', ''caller'', ''apply'', ''bind'', ''call'']
     @ object_prototype_names"

text \<open>
  \<^verbatim>\<open>key in v\<close> throws a TypeError unless \<open>v\<close> is an object or a function; it finds the own
  properties and the inherited ones.
\<close>

fun js_in :: "string \<Rightarrow> jsval \<Rightarrow> bool outcome" where
  "js_in key (Obj c ps) = Normal (key \<in> fst ` set ps \<or> key \<in> set (inherited_names c))"
| "js_in key (Func f) = Normal (key \<in> set function_names)"
| "js_in key v = Thrown TypeError"

text \<open>\<^verbatim>\<open>v instanceof Package.mongo.Mongo.Cursor\<close>\<close>

fun instanceof_Cursor :: "jsval \<Rightarrow> bool" where
  "instanceof_Cursor (Obj (MongoCursor names) ps) = True"
| "instanceof_Cursor v = False"

section \<open>The component, its manager and their environment\<close>

text \<open>
  The user's \<^verbatim>\<open>getMeteorData\<close> is arbitrary code. What the manager can observe of it is a
  run that reads reactive sources (each read registers the source with the computation that
  is current), reads \<^verbatim>\<open>this.props\<close> and \<^verbatim>\<open>this.state\<close>, calls \<^verbatim>\<open>this.setState\<close>, and ends by
  returning or throwing. An exception ends the run unless it is raised inside a
  \<^verbatim>\<open>try\<close> block: \<open>TryCatch body handler rest\<close> is
  \<^verbatim>\<open>try { body } catch (e) { handler(e) } rest\<close>, where the value that the block or the
  handler ends with is passed to the rest, and an exception of the handler or of the rest
  goes on.
\<close>

datatype fetch_prog =
    Return jsval
  | Throw jsval
  | ReadSource nat "jsval \<Rightarrow> fetch_prog"
  | ReadProps "jsval \<Rightarrow> fetch_prog"
  | ReadState "jsval \<Rightarrow> fetch_prog"
  | CallSetState jsval fetch_prog
  | TryCatch fetch_prog "jsval \<Rightarrow> fetch_prog" "jsval \<Rightarrow> fetch_prog"

text \<open>
  The value of \<^verbatim>\<open>component.setState\<close>: the host's own mutator, or the guard installed at
  lines 53-61.
\<close>

datatype mutator = HostSetState | EndlessLoopGuard

datatype log_entry = ConsoleError string jsval | ConsoleWarn string

text \<open>
  A computation of the tracking collaborator (\<^verbatim>\<open>meteor/tracker\<close>): stopped or not,
  invalidated or not, and the reactive sources it is registered with. A handle is the
  position of its computation in the registry.
\<close>

record computation_rec =
  stopped :: bool
  invalidated :: bool
  deps :: "nat list"

text \<open>
  The prototype of the object \<^verbatim>\<open>component.data\<close>: \<^verbatim>\<open>Object.prototype\<close>, as line 141 leaves
  it, or the value that an assignment to the key \<^verbatim>\<open>__proto__\<close> has given it.
\<close>

datatype proto = ObjectPrototype | AssignedProto jsval

text \<open>
  Everything the code reads or writes: the environment (\<^verbatim>\<open>Meteor.isServer\<close>, whether
  \<^verbatim>\<open>Package.mongo.Mongo\<close> is there, the reactive sources, the console), the tracker (its
  computations and its flush queue), the component (lines 141, 206, 210 and the host's
  \<^verbatim>\<open>setState\<close>, \<^verbatim>\<open>forceUpdate\<close>, \<^verbatim>\<open>props\<close>, \<^verbatim>\<open>state\<close>) and the manager (lines 12-14).
  \<open>data\<close> lists the own properties of \<^verbatim>\<open>component.data\<close> and \<open>dataProto\<close> is its prototype.
  \<open>forceUpdates\<close> counts the re-renders requested from the host and \<open>stateUpdates\<close> records
  the arguments of the calls that reached the host's \<^verbatim>\<open>setState\<close>.
\<close>

record world =
  isServer :: bool
  mongo :: bool
  sources :: "nat \<Rightarrow> jsval"
  console :: "log_entry list"
  comps :: "computation_rec list"
  pending :: "nat list"
  getMeteorData :: "fetch_prog option"
  setState :: mutator
  props :: jsval
  state :: jsval
  data :: "(string \<times> jsval) list"
  dataProto :: proto
  failedToGetData :: jsval
  forceUpdates :: nat
  stateUpdates :: "jsval list"
  computation :: "nat option"
  oldData :: jsval

section \<open>updateData (lines 112-136)\<close>

text \<open>
  Line 120, \<^verbatim>\<open>component.data[key] = value\<close>. The key \<^verbatim>\<open>__proto__\<close> is the setter that
  \<^verbatim>\<open>Object.prototype\<close> provides, unless \<^verbatim>\<open>component.data\<close> owns a property of that name or
  no longer inherits the setter (its prototype is \<^verbatim>\<open>null\<close>, or an object that owns a
  property of that name or inherits none). The setter adds no property: it makes an object,
  a function or \<^verbatim>\<open>null\<close> the prototype and ignores any other value. With any other key
  the assignment adds or overwrites an own property: what \<^verbatim>\<open>component.data\<close> inherits is
  taken to be writable.
\<close>

fun has_proto_setter :: "proto \<Rightarrow> bool" where
  "has_proto_setter ObjectPrototype = True"
| "has_proto_setter (AssignedProto Null) = False"
| "has_proto_setter (AssignedProto (Obj c ps)) =
     (''__proto__'' \<notin> fst ` set ps \<and> ''__proto__'' \<in> set (inherited_names c))"
| "has_proto_setter (AssignedProto v) = True"

fun proto_assignable :: "jsval \<Rightarrow> bool" where
  "proto_assignable Null = True"
| "proto_assignable (Obj c ps) = True"
| "proto_assignable (Func f) = True"
| "proto_assignable v = False"

definition write_prop ::
  "string \<Rightarrow> jsval \<Rightarrow> (string \<times> jsval) list \<times> proto \<Rightarrow> (string \<times> jsval) list \<times> proto" where
  "write_prop key v dp =
     (if key = ''__proto__'' \<and> key \<notin> fst ` set (fst dp) \<and> has_proto_setter (snd dp)
      then (fst dp, if proto_assignable v then AssignedProto v else snd dp)
      else (AList.update key v (fst dp), snd dp))"

text \<open>Lines 119-121: \<^verbatim>\<open>for (let key in newData) component.data[key] = newData[key]\<close>.\<close>

definition write_keys ::
  "jsval \<Rightarrow> (string \<times> jsval) list \<times> proto \<Rightarrow> (string \<times> jsval) list \<times> proto" where
  "write_keys newData dp =
     fold (\<lambda>key acc. write_prop key (get_prop newData key) acc) (forin_keys newData) dp"

text \<open>
  Lines 128-132, over the keys of \<open>oldData\<close> still to visit. The \<^verbatim>\<open>in\<close> test can throw;
  the deletions made before it stay.
\<close>

fun delete_stale :: "jsval \<Rightarrow> string list \<Rightarrow> (string \<times> jsval) list
    \<Rightarrow> unit outcome \<times> (string \<times> jsval) list" where
  "delete_stale newData [] d = (Normal (), d)"
| "delete_stale newData (key # keys) d =
     (case js_in key newData of
        Thrown e \<Rightarrow> (Thrown e, d)
      | Normal present \<Rightarrow>
          delete_stale newData keys (if \<not> present then AList.delete key d else d))"

definition updateData :: "jsval \<Rightarrow> world \<Rightarrow> unit outcome \<times> world" where
  "updateData newData0 w =
     (let oldD = oldData w;
          failed = (newData0 = Undefined);
          newData = (if failed then Obj PlainObject [] else newData0);
          written = write_keys newData (data w, dataProto w);
          w1 = w\<lparr>data := fst written, dataProto := snd written\<rparr>;
          (r, d2) = (if truthy oldD then delete_stale newData (forin_keys oldD) (data w1)
                     else (Normal (), data w1));
          w2 = w1\<lparr>data := d2\<rparr>
      in case r of
           Thrown e \<Rightarrow> (Thrown e, w2)
         | Normal u \<Rightarrow> (Normal (), w2\<lparr>oldData := newData, failedToGetData := Bool failed\<rparr>))"

section \<open>The tracking collaborator\<close>

text \<open>
  \<^verbatim>\<open>meteor/tracker\<close> is imported, not part of this package. Its contract, as the package
  uses it: \<^verbatim>\<open>Tracker.autorun\<close> registers a new computation and runs its body at once with
  \<^verbatim>\<open>firstRun\<close> set; a read of a reactive source inside the body registers the source with
  the computation; a change of a source invalidates the computations registered with it,
  which unregisters them and queues them for the next flush; a flush runs again the body of
  every queued computation that is invalidated and not stopped; \<^verbatim>\<open>stop\<close> marks a
  computation stopped and invalidates it without queueing it. The registry holds the
  computations of this manager only, so \<^verbatim>\<open>Tracker.nonreactive\<close> (line 48), which hides an
  enclosing computation from \<^verbatim>\<open>autorun\<close>, has nothing to hide here.
\<close>

definition new_computation :: computation_rec where
  "new_computation = \<lparr>stopped = False, invalidated = False, deps = []\<rparr>"

definition depend :: "nat option \<Rightarrow> nat \<Rightarrow> world \<Rightarrow> world" where
  "depend cur s w =
     (case cur of
        None \<Rightarrow> w
      | Some c \<Rightarrow>
          w\<lparr>comps := (comps w)[c := (comps w ! c)\<lparr>deps := List.insert s (deps (comps w ! c))\<rparr>]\<rparr>)"

definition invalidate :: "nat \<Rightarrow> world \<Rightarrow> world" where
  "invalidate c w =
     (let cmp = comps w ! c
      in if c \<ge> length (comps w) \<or> invalidated cmp then w
         else w\<lparr>pending := (if stopped cmp then pending w else pending w @ [c]),
                comps := (comps w)[c := cmp\<lparr>invalidated := True, deps := []\<rparr>]\<rparr>)"

definition stop :: "nat \<Rightarrow> world \<Rightarrow> world" where
  "stop c w =
     (let cmp = comps w ! c
      in if c \<ge> length (comps w) \<or> stopped cmp then w
         else invalidate c (w\<lparr>comps := (comps w)[c := cmp\<lparr>stopped := True\<rparr>]\<rparr>))"

definition dependents :: "nat \<Rightarrow> world \<Rightarrow> nat list" where
  "dependents s w = filter (\<lambda>c. s \<in> set (deps (comps w ! c))) [0..<length (comps w)]"

definition source_changed :: "nat \<Rightarrow> jsval \<Rightarrow> world \<Rightarrow> world" where
  "source_changed s v w =
     fold invalidate (dependents s w) (w\<lparr>sources := (sources w)(s := v)\<rparr>)"

section \<open>The fetch function and the mutator\<close>

definition endless_loop_message :: string where
  "endless_loop_message =
     ''Can't call `setState` inside `getMeteorData` as this could '' @
     ''cause an endless loop. To respond to Meteor data changing, '' @
     ''consider making this component a \"wrapper component\" that '' @
     ''only fetches data and passes it in as props to a child '' @
     ''component. Then you can use `componentWillReceiveProps` in '' @
     ''that child component.''"

text \<open>A call of \<^verbatim>\<open>component.setState(arg)\<close>, whatever function is stored there.\<close>

definition call_setState :: "jsval \<Rightarrow> world \<Rightarrow> unit outcome \<times> world" where
  "call_setState arg w =
     (case setState w of
        EndlessLoopGuard \<Rightarrow> (Thrown (new_Error endless_loop_message), w)
      | HostSetState \<Rightarrow> (Normal (), w\<lparr>stateUpdates := stateUpdates w @ [arg]\<rparr>))"

text \<open>
  \<^verbatim>\<open>component.getMeteorData()\<close> run to its end; \<open>cur\<close> is the computation that is current
  during the run, if any.
\<close>

primrec run_fetch :: "fetch_prog \<Rightarrow> nat option \<Rightarrow> world \<Rightarrow> jsval outcome \<times> world" where
  "run_fetch (Return v) cur w = (Normal v, w)"
| "run_fetch (Throw e) cur w = (Thrown e, w)"
| "run_fetch (ReadSource s k) cur w = run_fetch (k (sources w s)) cur (depend cur s w)"
| "run_fetch (ReadProps k) cur w = run_fetch (k (props w)) cur w"
| "run_fetch (ReadState k) cur w = run_fetch (k (state w)) cur w"
| "run_fetch (CallSetState arg p) cur w =
     (case call_setState arg w of
        (Thrown e, w') \<Rightarrow> (Thrown e, w')
      | (Normal u, w') \<Rightarrow> run_fetch p cur w')"
| "run_fetch (TryCatch body handler rest) cur w =
     (case run_fetch body cur w of
        (Normal v, w') \<Rightarrow> run_fetch (rest v) cur w'
      | (Thrown e, w') \<Rightarrow>
          (case run_fetch (handler e) cur w' of
             (Normal v, w'') \<Rightarrow> run_fetch (rest v) cur w''
           | (Thrown e', w'') \<Rightarrow> (Thrown e', w'')))"

section \<open>MeteorDataManager (lines 10-137)\<close>

text \<open>Lines 11-15; \<open>component\<close> is the component of the world.\<close>

definition constructor :: "world \<Rightarrow> world" where
  "constructor w = w\<lparr>computation := None, oldData := Null\<rparr>"

text \<open>Lines 17-22 and, word for word, lines 37-40.\<close>

definition dispose :: "world \<Rightarrow> world" where
  "dispose w =
     (case computation w of
        Some c \<Rightarrow> (stop c w)\<lparr>computation := None\<rparr>
      | None \<Rightarrow> w)"

definition log_error :: "jsval \<Rightarrow> world \<Rightarrow> world" where
  "log_error e w =
     w\<lparr>console := console w @
          [ConsoleError ''Exception from withTracker getMeteorData function:'' e]\<rparr>"

text \<open>
  Lines 50-79, the body of the computation \<open>c\<close> on its first run. The result is the value
  left in the variable \<^verbatim>\<open>data\<close> of line 42. Calling a \<^verbatim>\<open>getMeteorData\<close> that is not there
  is a TypeError, caught like any other exception.
\<close>

definition first_run :: "nat \<Rightarrow> world \<Rightarrow> jsval \<times> world" where
  "first_run c w =
     (let savedSetState = setState w;
          w1 = w\<lparr>setState := EndlessLoopGuard\<rparr>;
          (r, w2) = (case getMeteorData w1 of
                       Some f \<Rightarrow> run_fetch f (Some c) w1
                     | None \<Rightarrow> (Thrown TypeError, w1));
          (d, w3) = (case r of
                       Normal v \<Rightarrow>
                         if \<not> (truthy v \<and> typeof v = ''object'')
                         then (Undefined,
                               log_error (new_Error ''Expected object returned from getMeteorData'') w2)
                         else (v, w2)
                     | Thrown e \<Rightarrow> (Undefined, log_error e w2))
      in (d, w3\<lparr>setState := savedSetState\<rparr>))"

text \<open>Line 92: the host is asked to render again.\<close>

definition forceUpdate :: "world \<Rightarrow> world" where
  "forceUpdate w = w\<lparr>forceUpdates := Suc (forceUpdates w)\<rparr>"

text \<open>Lines 80-93, the body of the computation \<open>c\<close> on any later run.\<close>

definition rerun :: "nat \<Rightarrow> world \<Rightarrow> world" where
  "rerun c w = forceUpdate (stop c w)"

text \<open>Lines 97-107.\<close>

definition cursor_warning :: string where
  "cursor_warning =
     ''Warning: you are returning a Mongo cursor from getMeteorData. '' @
     ''This value will not be reactive. You probably want to call '' @
     ''`.fetch()` on the cursor before returning it.''"

definition warn_cursors :: "jsval \<Rightarrow> world \<Rightarrow> world" where
  "warn_cursors d w =
     (if truthy d \<and> mongo w
      then w\<lparr>console := console w @
                map (\<lambda>key. ConsoleWarn cursor_warning)
                  (filter (\<lambda>key. instanceof_Cursor (get_prop d key)) (forin_keys d))\<rparr>
      else w)"

text \<open>Lines 48-95: \<^verbatim>\<open>Tracker.autorun\<close> creates the computation and runs its body once.\<close>

definition autorun :: "world \<Rightarrow> (nat \<times> jsval) \<times> world" where
  "autorun w =
     (let c = length (comps w);
          (d, w1) = first_run c (w\<lparr>comps := comps w @ [new_computation]\<rparr>)
      in ((c, d), w1))"

definition calculateData :: "world \<Rightarrow> jsval outcome \<times> world" where
  "calculateData w =
     (case getMeteorData w of
        None \<Rightarrow> (Normal Null, w)
      | Some f \<Rightarrow>
          if isServer w then run_fetch f None w
          else
            let w1 = dispose w;
                ((c, d), w2) = autorun w1;
                w3 = w2\<lparr>computation := Some c\<rparr>
            in (Normal d, warn_cursors d w3))"

text \<open>
  The tracker's flush: the body of a queued computation runs again if the computation is
  invalidated and not stopped. The body (\<open>rerun\<close>) queues nothing, so the queue is the one
  found at the start.
\<close>

definition recompute :: "nat \<Rightarrow> world \<Rightarrow> world" where
  "recompute c w =
     (let cmp = comps w ! c
      in if c < length (comps w) \<and> invalidated cmp \<and> \<not> stopped cmp
         then rerun c (w\<lparr>comps := (comps w)[c := cmp\<lparr>invalidated := False\<rparr>]\<rparr>)
         else w)"

definition flush :: "world \<Rightarrow> world" where
  "flush w = fold recompute (pending w) (w\<lparr>pending := []\<rparr>)"

section \<open>The mixin (lines 139-182)\<close>

text \<open>
  The component as lines 141-142 leave it, in a given environment and with no computation
  of its own registered yet.
\<close>

definition new_component ::
  "bool \<Rightarrow> bool \<Rightarrow> (nat \<Rightarrow> jsval) \<Rightarrow> fetch_prog option \<Rightarrow> jsval \<Rightarrow> jsval \<Rightarrow> world" where
  "new_component srv mng src f p s =
     constructor
       \<lparr>isServer = srv, mongo = mng, sources = src, console = [], comps = [], pending = [],
        getMeteorData = f, setState = HostSetState, props = p, state = s, data = [],
        dataProto = ObjectPrototype, failedToGetData = Undefined, forceUpdates = 0, stateUpdates = [],
        computation = None, oldData = Undefined\<rparr>"

definition componentWillMount ::
  "bool \<Rightarrow> bool \<Rightarrow> (nat \<Rightarrow> jsval) \<Rightarrow> fetch_prog option \<Rightarrow> jsval \<Rightarrow> jsval \<Rightarrow> unit outcome \<times> world" where
  "componentWillMount srv mng src f p s =
     (case calculateData (new_component srv mng src f p s) of
        (Thrown e, w) \<Rightarrow> (Thrown e, w)
      | (Normal newData, w) \<Rightarrow> updateData newData w)"

definition componentWillUpdate :: "jsval \<Rightarrow> jsval \<Rightarrow> world \<Rightarrow> unit outcome \<times> world" where
  "componentWillUpdate nextProps nextState w =
     (let saveProps = props w;
          saveState = state w;
          (r, w1) = calculateData (w\<lparr>props := nextProps, state := nextState\<rparr>);
          w2 = w1\<lparr>props := saveProps, state := saveState\<rparr>
      in case r of
           Thrown e \<Rightarrow> (Thrown e, w2)
         | Normal newData \<Rightarrow> updateData newData w2)"

definition componentWillUnmount :: "world \<Rightarrow> world" where
  "componentWillUnmount w = dispose w"

section \<open>Histories\<close>

text \<open>
  What can happen to a mounted component: the host calls a lifecycle hook, some code calls
  a method of the manager, a reactive source changes, the tracker flushes. An exception
  goes to the caller; the world stays as the call left it. The re-render that the host makes
  after a \<^verbatim>\<open>forceUpdate\<close> is a later \<open>WillUpdate\<close> of the history.
\<close>

datatype event =
    CalculateData
  | UpdateData jsval
  | Dispose
  | WillUpdate jsval jsval
  | WillUnmount
  | SourceChanged nat jsval
  | Flush

fun step :: "event \<Rightarrow> world \<Rightarrow> world" where
  "step CalculateData w = snd (calculateData w)"
| "step (UpdateData v) w = snd (updateData v w)"
| "step Dispose w = dispose w"
| "step (WillUpdate p s) w = snd (componentWillUpdate p s w)"
| "step WillUnmount w = componentWillUnmount w"
| "step (SourceChanged s v) w = source_changed s v w"
| "step Flush w = flush w"

definition run :: "event list \<Rightarrow> world \<Rightarrow> world" where
  "run evs w = fold step evs w"

text \<open>The handles of the computations that are not stopped.\<close>

definition live :: "world \<Rightarrow> nat list" where
  "live w = filter (\<lambda>c. \<not> stopped (comps w ! c)) [0..<length (comps w)]"

section \<open>Vocabulary of the properties\<close>

text \<open>
  What a run of the fetch function ends with, as a function of what the run can read: the
  reactive sources, the props, the state and the mutator in place. \<open>run_fetch\<close> returns
  this outcome (lemma \<open>run_fetch_outcome\<close>).
\<close>

primrec fetch_outcome :: "fetch_prog \<Rightarrow> (nat \<Rightarrow> jsval) \<Rightarrow> jsval \<Rightarrow> jsval \<Rightarrow> mutator \<Rightarrow> jsval outcome" where
  "fetch_outcome (Return v) src p s m = Normal v"
| "fetch_outcome (Throw e) src p s m = Thrown e"
| "fetch_outcome (ReadSource x k) src p s m = fetch_outcome (k (src x)) src p s m"
| "fetch_outcome (ReadProps k) src p s m = fetch_outcome (k p) src p s m"
| "fetch_outcome (ReadState k) src p s m = fetch_outcome (k s) src p s m"
| "fetch_outcome (CallSetState arg f) src p s m =
     (case m of EndlessLoopGuard \<Rightarrow> Thrown (new_Error endless_loop_message)
      | HostSetState \<Rightarrow> fetch_outcome f src p s m)"
| "fetch_outcome (TryCatch body handler rest) src p s m =
     (case fetch_outcome body src p s m of
        Normal v \<Rightarrow> fetch_outcome (rest v) src p s m
      | Thrown e \<Rightarrow>
          (case fetch_outcome (handler e) src p s m of
             Normal v \<Rightarrow> fetch_outcome (rest v) src p s m
           | Thrown e' \<Rightarrow> Thrown e'))"


text \<open>
  A fetch that fails, in the words of the specification: it throws, or it returns
  \<^verbatim>\<open>null\<close> or something that is not an object. \<open>logged_exception\<close> is what the console
  should then show.
\<close>

fun is_object :: "jsval \<Rightarrow> bool" where
  "is_object (Obj c ps) = True"
| "is_object v = False"

fun fetch_fails :: "jsval outcome \<Rightarrow> bool" where
  "fetch_fails (Thrown e) = True"
| "fetch_fails (Normal v) = (v = Null \<or> \<not> is_object v)"

fun logged_exception :: "jsval outcome \<Rightarrow> jsval" where
  "logged_exception (Thrown e) = e"
| "logged_exception (Normal v) = new_Error ''Expected object returned from getMeteorData''"

text \<open>
  What lines 64-76 make of the outcome of the fetch function: the value left in \<^verbatim>\<open>data\<close>
  and the entries added to the console.
\<close>

definition validated :: "jsval outcome \<Rightarrow> jsval" where
  "validated r = (case r of
      Normal v \<Rightarrow> if truthy v \<and> typeof v = ''object'' then v else Undefined
    | Thrown e \<Rightarrow> Undefined)"

definition failure_log :: "jsval outcome \<Rightarrow> log_entry list" where
  "failure_log r = (case r of
      Normal v \<Rightarrow> if truthy v \<and> typeof v = ''object'' then []
        else [ConsoleError ''Exception from withTracker getMeteorData function:''
               (new_Error ''Expected object returned from getMeteorData'')]
    | Thrown e \<Rightarrow> [ConsoleError ''Exception from withTracker getMeteorData function:'' e])"

text \<open>
  The stopped flags of the registry, in order. The invariant of the manager: a computation
  that is not stopped is the one the manager holds. Stopping is for good: a flag that is
  set stays set.
\<close>

definition flags :: "world \<Rightarrow> bool list" where
  "flags w = map stopped (comps w)"

definition sole_live :: "world \<Rightarrow> bool" where
  "sole_live w = (set (live w) \<subseteq> set_option (computation w))"

definition flags_grow :: "bool list \<Rightarrow> bool list \<Rightarrow> bool" where
  "flags_grow bs bs' = (length bs' = length bs \<and> (\<forall>i < length bs. bs ! i \<longrightarrow> bs' ! i))"

text \<open>The same when computations may have been registered in between.\<close>

definition flags_extend :: "bool list \<Rightarrow> bool list \<Rightarrow> bool" where
  "flags_extend bs bs' = (length bs \<le> length bs' \<and> (\<forall>i < length bs. bs ! i \<longrightarrow> bs' ! i))"

text \<open>
  What a run of the fetch function leaves as it is; \<open>cur\<close> is the computation that is
  current during the run.
\<close>

definition fetch_frame :: "nat option \<Rightarrow> world \<Rightarrow> world \<Rightarrow> bool" where
  "fetch_frame cur w w' =
     (isServer w' = isServer w \<and> mongo w' = mongo w \<and> sources w' = sources w \<and>
      console w' = console w \<and> pending w' = pending w \<and>
      getMeteorData w' = getMeteorData w \<and> setState w' = setState w \<and>
      props w' = props w \<and> state w' = state w \<and> data w' = data w \<and>
      dataProto w' = dataProto w \<and> failedToGetData w' = failedToGetData w \<and>
      forceUpdates w' = forceUpdates w \<and> computation w' = computation w \<and>
      oldData w' = oldData w \<and> flags w' = flags w \<and>
      (cur = None \<longrightarrow> comps w' = comps w) \<and>
      (setState w = EndlessLoopGuard \<longrightarrow> stateUpdates w' = stateUpdates w))"

text \<open>The keys that the loop of lines 127-133 visits.\<close>

definition stored_keys :: "world \<Rightarrow> string set" where
  "stored_keys w = (if truthy (oldData w) then set (forin_keys (oldData w)) else {})"

text \<open>
  The events that make the manager compute again, and a sequence of recomputation rounds,
  each with its next props and state.
\<close>

fun recomputes :: "event \<Rightarrow> bool" where
  "recomputes CalculateData = True"
| "recomputes (WillUpdate p s) = True"
| "recomputes ev = False"

definition rounds :: "(jsval \<times> jsval) list \<Rightarrow> event list" where
  "rounds ps = map (\<lambda>ps. WillUpdate (fst ps) (snd ps)) ps"

text \<open>
  The invariant of a component without a fetch function, and the invariant of a component
  with the fetch function \<open>f\<close> on the server.
\<close>

definition opaque :: "world \<Rightarrow> bool" where
  "opaque w = (getMeteorData w = None \<and> oldData w = Null \<and> data w = [] \<and>
               failedToGetData w = Bool False)"

definition serverside :: "fetch_prog \<Rightarrow> world \<Rightarrow> bool" where
  "serverside f w = (isServer w \<and> getMeteorData w = Some f \<and> comps w = [] \<and> pending w = [] \<and>
                     computation w = None)"

section \<open>Sample components and histories\<close>

definition no_sources :: "nat \<Rightarrow> jsval" where
  "no_sources s = Undefined"



text \<open>\<^verbatim>\<open>getMeteorData() { return {count: source0.get()}; }\<close> on the client and on the server.\<close>

definition counter_fetch :: fetch_prog where
  "counter_fetch = ReadSource 0 (\<lambda>v. Return (Obj PlainObject [(''count'', v)]))"

definition client_component :: world where
  "client_component = new_component False False no_sources (Some counter_fetch) Null Null"

definition server_component :: world where
  "server_component = new_component True False no_sources (Some counter_fetch) Null Null"

text \<open>\<^verbatim>\<open>getMeteorData() { throw "boom"; }\<close>\<close>

definition throwing_component :: world where
  "throwing_component = new_component False False no_sources (Some (Throw (Str ''boom''))) Null Null"





definition busy_history :: "event list" where
  "busy_history = [CalculateData, SourceChanged 0 (Num 1), Flush, WillUpdate Null Null, CalculateData]"

definition tracked_history :: "event list" where
  "tracked_history = [CalculateData, SourceChanged 0 (Num 1)]"

definition later_changes :: "event list" where
  "later_changes = [Flush, SourceChanged 0 (Num 2), Flush, UpdateData Undefined, Flush]"

definition after_teardown :: "event list" where
  "after_teardown = [CalculateData, SourceChanged 0 (Num 2), Flush]"

section \<open>Lemmas\<close>

subsection \<open>The fetch function\<close>

lemma depend_frame:
  "isServer (depend cur s w) = isServer w" "mongo (depend cur s w) = mongo w"
  "sources (depend cur s w) = sources w" "console (depend cur s w) = console w"
  "pending (depend cur s w) = pending w" "getMeteorData (depend cur s w) = getMeteorData w"
  "setState (depend cur s w) = setState w" "props (depend cur s w) = props w"
  "state (depend cur s w) = state w" "data (depend cur s w) = data w"
  "failedToGetData (depend cur s w) = failedToGetData w"
  "forceUpdates (depend cur s w) = forceUpdates w"
  "stateUpdates (depend cur s w) = stateUpdates w"
  "computation (depend cur s w) = computation w" "oldData (depend cur s w) = oldData w"
  "dataProto (depend cur s w) = dataProto w"
  by (simp_all add: depend_def split: option.splits)

lemma map_update_same: "(map f xs)[i := f (xs ! i)] = map f xs"
  by (metis list_update_id map_update)

lemma depend_flags: "flags (depend cur s w) = flags w"
  by (cases cur) (simp_all add: depend_def flags_def map_update map_update_same)

lemma depend_None: "depend None s w = w"
  by (simp add: depend_def)

lemma fetch_frame_refl: "fetch_frame cur w w"
  by (simp add: fetch_frame_def)

lemma fetch_frame_trans: "fetch_frame cur w w1 \<Longrightarrow> fetch_frame cur w1 w2 \<Longrightarrow> fetch_frame cur w w2"
  by (simp add: fetch_frame_def)

lemma fetch_frame_depend: "fetch_frame cur w (depend cur x w)"
  by (simp add: fetch_frame_def depend_frame depend_flags) (simp add: depend_def)

lemma fetch_frame_call:
  "fetch_frame cur w (snd (call_setState arg w))"
  by (cases "setState w") (simp_all add: fetch_frame_def call_setState_def flags_def)

lemma run_fetch_spec:
  "fetch_frame cur w (snd (run_fetch f cur w)) \<and>
   fst (run_fetch f cur w) = fetch_outcome f (sources w) (props w) (state w) (setState w)"
proof (induction f arbitrary: w)
  case (Return v)
  show ?case by (simp add: fetch_frame_refl)
next
  case (Throw e)
  show ?case by (simp add: fetch_frame_refl)
next
  case (ReadSource x k)
  have a: "fetch_frame cur w (depend cur x w)" by (rule fetch_frame_depend)
  have b: "fetch_frame cur (depend cur x w) (snd (run_fetch (k (sources w x)) cur (depend cur x w)))"
    "fst (run_fetch (k (sources w x)) cur (depend cur x w)) =
       fetch_outcome (k (sources w x)) (sources w) (props w) (state w) (setState w)"
    using ReadSource [of "k (sources w x)" "depend cur x w"] by (simp_all add: depend_frame)
  show ?case using fetch_frame_trans [OF a b(1)] b(2) by simp
next
  case (ReadProps k)
  show ?case using ReadProps [of "k (props w)" w] by simp
next
  case (ReadState k)
  show ?case using ReadState [of "k (state w)" w] by simp
next
  case (CallSetState arg f)
  show ?case
  proof (cases "setState w")
    case HostSetState
    let ?w1 = "w\<lparr>stateUpdates := stateUpdates w @ [arg]\<rparr>"
    have a: "fetch_frame cur w ?w1" using HostSetState by (simp add: fetch_frame_def flags_def)
    show ?thesis
      using HostSetState CallSetState [of ?w1] fetch_frame_trans [OF a]
      by (simp add: call_setState_def)
  next
    case EndlessLoopGuard
    then show ?thesis by (simp add: call_setState_def fetch_frame_refl)
  qed
next
  case (TryCatch body handler rest)
  obtain o1 w1 where r1: "run_fetch body cur w = (o1, w1)"
    by (cases "run_fetch body cur w")
  have f1: "fetch_frame cur w w1"
    and o1: "o1 = fetch_outcome body (sources w) (props w) (state w) (setState w)"
    using TryCatch(1) [of w] r1 by simp_all
  have env1: "sources w1 = sources w" "props w1 = props w" "state w1 = state w"
    "setState w1 = setState w"
    using f1 by (simp_all add: fetch_frame_def)
  show ?case
  proof (cases o1)
    case (Normal v)
    have "fetch_frame cur w1 (snd (run_fetch (rest v) cur w1))"
      "fst (run_fetch (rest v) cur w1) =
         fetch_outcome (rest v) (sources w) (props w) (state w) (setState w)"
      using TryCatch(3) [of "rest v" w1] by (simp_all add: env1)
    then show ?thesis
      using r1 Normal o1 fetch_frame_trans [OF f1] by simp
  next
    case (Thrown e)
    obtain o2 w2 where r2: "run_fetch (handler e) cur w1 = (o2, w2)"
      by (cases "run_fetch (handler e) cur w1")
    have f2: "fetch_frame cur w1 w2"
      and o2: "o2 = fetch_outcome (handler e) (sources w) (props w) (state w) (setState w)"
      using TryCatch(2) [of "handler e" w1] r2 by (simp_all add: env1)
    have f12: "fetch_frame cur w w2" using f1 f2 by (rule fetch_frame_trans)
    have env2: "sources w2 = sources w" "props w2 = props w" "state w2 = state w"
      "setState w2 = setState w"
      using f12 by (simp_all add: fetch_frame_def)
    show ?thesis
    proof (cases o2)
      case (Normal v)
      have "fetch_frame cur w2 (snd (run_fetch (rest v) cur w2))"
        "fst (run_fetch (rest v) cur w2) =
           fetch_outcome (rest v) (sources w) (props w) (state w) (setState w)"
        using TryCatch(3) [of "rest v" w2] by (simp_all add: env2)
      then show ?thesis
        using r1 r2 Thrown Normal o1 o2 fetch_frame_trans [OF f12] by simp
    next
      case (Thrown e')
      then show ?thesis
        using r1 r2 \<open>o1 = Thrown e\<close> o1 o2 f12 by simp
    qed
  qed
qed

lemma run_fetch_frame:
  "isServer (snd (run_fetch f cur w)) = isServer w \<and>
   mongo (snd (run_fetch f cur w)) = mongo w \<and>
   sources (snd (run_fetch f cur w)) = sources w \<and>
   console (snd (run_fetch f cur w)) = console w \<and>
   pending (snd (run_fetch f cur w)) = pending w \<and>
   getMeteorData (snd (run_fetch f cur w)) = getMeteorData w \<and>
   setState (snd (run_fetch f cur w)) = setState w \<and>
   props (snd (run_fetch f cur w)) = props w \<and>
   state (snd (run_fetch f cur w)) = state w \<and>
   data (snd (run_fetch f cur w)) = data w \<and>
   dataProto (snd (run_fetch f cur w)) = dataProto w \<and>
   failedToGetData (snd (run_fetch f cur w)) = failedToGetData w \<and>
   forceUpdates (snd (run_fetch f cur w)) = forceUpdates w \<and>
   computation (snd (run_fetch f cur w)) = computation w \<and>
   oldData (snd (run_fetch f cur w)) = oldData w \<and>
   flags (snd (run_fetch f cur w)) = flags w"
  using run_fetch_spec [of cur w f] by (simp add: fetch_frame_def)

lemma run_fetch_None_comps: "comps (snd (run_fetch f None w)) = comps w"
  using run_fetch_spec [of None w f] by (simp add: fetch_frame_def)

lemma run_fetch_outcome:
  "fst (run_fetch f cur w) = fetch_outcome f (sources w) (props w) (state w) (setState w)"
  using run_fetch_spec [of cur w f] by simp

lemma run_fetch_guard_stateUpdates:
  "setState w = EndlessLoopGuard \<Longrightarrow> stateUpdates (snd (run_fetch f cur w)) = stateUpdates w"
  using run_fetch_spec [of cur w f] by (simp add: fetch_frame_def)

subsection \<open>The tracker\<close>

lemma live_flags: "live w = filter (\<lambda>c. \<not> flags w ! c) [0..<length (flags w)]"
  by (auto simp: live_def flags_def intro: filter_cong)

lemma set_live: "set (live w) = {c. c < length (flags w) \<and> \<not> flags w ! c}"
  by (auto simp: live_flags)

lemma invalidate_flags: "flags (invalidate c w) = flags w"
  by (simp add: invalidate_def flags_def Let_def map_update map_update_same)

lemma invalidate_frame:
  "isServer (invalidate c w) = isServer w" "mongo (invalidate c w) = mongo w"
  "sources (invalidate c w) = sources w" "console (invalidate c w) = console w"
  "getMeteorData (invalidate c w) = getMeteorData w"
  "setState (invalidate c w) = setState w" "props (invalidate c w) = props w"
  "state (invalidate c w) = state w" "data (invalidate c w) = data w"
  "failedToGetData (invalidate c w) = failedToGetData w"
  "forceUpdates (invalidate c w) = forceUpdates w"
  "stateUpdates (invalidate c w) = stateUpdates w"
  "computation (invalidate c w) = computation w" "oldData (invalidate c w) = oldData w"
  by (simp_all add: invalidate_def Let_def)

lemma flags_computation_update [simp]: "flags (w\<lparr>computation := x\<rparr>) = flags w"
  by (simp add: flags_def)

lemma update_True_same: "i \<ge> length bs \<or> bs ! i \<Longrightarrow> bs[i := True] = bs"
  by (cases "i < length bs") (auto simp: list_update_same_conv list_update_beyond)

lemma nth_update_True: "i < length bs \<Longrightarrow> bs[c := True] ! i = (i = c \<or> bs ! i)"
  by (cases "i = c") simp_all

lemma stop_flags: "flags (stop c w) = (flags w)[c := True]"
proof (cases "c \<ge> length (comps w) \<or> stopped (comps w ! c)")
  case True
  then have "c \<ge> length (flags w) \<or> flags w ! c"
    by (cases "c < length (comps w)") (auto simp: flags_def)
  then have "(flags w)[c := True] = flags w"
    by (rule update_True_same)
  with True show ?thesis by (simp add: stop_def)
next
  case False
  then have "flags (stop c w) = flags (w\<lparr>comps := (comps w)[c := (comps w ! c)\<lparr>stopped := True\<rparr>]\<rparr>)"
    by (simp add: stop_def Let_def invalidate_flags)
  then show ?thesis by (simp add: flags_def map_update)
qed

lemma stop_frame:
  "isServer (stop c w) = isServer w" "mongo (stop c w) = mongo w"
  "sources (stop c w) = sources w" "console (stop c w) = console w"
  "getMeteorData (stop c w) = getMeteorData w"
  "setState (stop c w) = setState w" "props (stop c w) = props w"
  "state (stop c w) = state w" "data (stop c w) = data w"
  "failedToGetData (stop c w) = failedToGetData w"
  "forceUpdates (stop c w) = forceUpdates w"
  "stateUpdates (stop c w) = stateUpdates w"
  "computation (stop c w) = computation w" "oldData (stop c w) = oldData w"
  by (simp_all add: stop_def Let_def invalidate_frame)

lemma stop_pending: "pending (stop c w) = pending w"
  by (simp add: stop_def invalidate_def Let_def)

lemma dispose_frame:
  "isServer (dispose w) = isServer w" "mongo (dispose w) = mongo w"
  "sources (dispose w) = sources w" "console (dispose w) = console w"
  "getMeteorData (dispose w) = getMeteorData w"
  "setState (dispose w) = setState w" "props (dispose w) = props w"
  "state (dispose w) = state w" "data (dispose w) = data w"
  "failedToGetData (dispose w) = failedToGetData w"
  "forceUpdates (dispose w) = forceUpdates w"
  "stateUpdates (dispose w) = stateUpdates w"
  "oldData (dispose w) = oldData w" "pending (dispose w) = pending w"
  by (simp_all add: dispose_def stop_frame stop_pending split: option.splits)

lemma dispose_computation: "computation (dispose w) = None"
  by (simp add: dispose_def split: option.splits)

lemma dispose_length: "length (flags (dispose w)) = length (flags w)"
  by (simp add: dispose_def stop_flags split: option.splits)

lemma dispose_live: "sole_live w \<Longrightarrow> live (dispose w) = []"
proof -
  assume a: "sole_live w"
  have "set (live (dispose w)) = {}"
  proof (cases "computation w")
    case None
    then show ?thesis using a by (simp add: sole_live_def dispose_def)
  next
    case (Some c)
    then have "flags (dispose w) = (flags w)[c := True]"
      by (simp add: dispose_def stop_flags)
    moreover have "\<And>i. i < length (flags w) \<Longrightarrow> \<not> flags w ! i \<Longrightarrow> i = c"
      using a Some by (auto simp: sole_live_def set_live)
    ultimately show ?thesis by (auto simp: set_live nth_update_True)
  qed
  then show ?thesis by simp
qed

subsection \<open>The first run\<close>

lemma first_run_eq:
  assumes g: "getMeteorData w = Some f"
  shows "first_run c w =
    (validated (fetch_outcome f (sources w) (props w) (state w) EndlessLoopGuard),
     (snd (run_fetch f (Some c) (w\<lparr>setState := EndlessLoopGuard\<rparr>)))
       \<lparr>console := console w @
          failure_log (fetch_outcome f (sources w) (props w) (state w) EndlessLoopGuard),
        setState := setState w\<rparr>)"
proof -
  let ?w1 = "w\<lparr>setState := EndlessLoopGuard\<rparr>"
  obtain out w2 where rf: "run_fetch f (Some c) ?w1 = (out, w2)"
    by (cases "run_fetch f (Some c) ?w1")
  have out: "out = fetch_outcome f (sources w) (props w) (state w) EndlessLoopGuard"
    using run_fetch_outcome [of f "Some c" ?w1] rf by simp
  have con: "console w2 = console w"
    using run_fetch_frame [of f "Some c" ?w1] rf by simp
  show ?thesis
    using g rf con
    by (simp add: first_run_def Let_def out [symmetric] validated_def failure_log_def log_error_def
          split: outcome.splits)
qed

lemma first_run_frame:
  assumes g: "getMeteorData w = Some f"
  shows "isServer (snd (first_run c w)) = isServer w"
    "mongo (snd (first_run c w)) = mongo w"
    "sources (snd (first_run c w)) = sources w"
    "pending (snd (first_run c w)) = pending w"
    "getMeteorData (snd (first_run c w)) = getMeteorData w"
    "setState (snd (first_run c w)) = setState w"
    "props (snd (first_run c w)) = props w"
    "state (snd (first_run c w)) = state w"
    "data (snd (first_run c w)) = data w"
    "failedToGetData (snd (first_run c w)) = failedToGetData w"
    "forceUpdates (snd (first_run c w)) = forceUpdates w"
    "stateUpdates (snd (first_run c w)) = stateUpdates w"
    "computation (snd (first_run c w)) = computation w"
    "oldData (snd (first_run c w)) = oldData w"
    "flags (snd (first_run c w)) = flags w"
  using run_fetch_frame [of f "Some c" "w\<lparr>setState := EndlessLoopGuard\<rparr>"]
    run_fetch_guard_stateUpdates [of "w\<lparr>setState := EndlessLoopGuard\<rparr>" f "Some c"]
  by (simp_all add: first_run_eq [OF g] flags_def)

lemma warn_cursors_frame:
  "isServer (warn_cursors d w) = isServer w"
  "mongo (warn_cursors d w) = mongo w"
  "sources (warn_cursors d w) = sources w"
  "pending (warn_cursors d w) = pending w"
  "comps (warn_cursors d w) = comps w"
  "getMeteorData (warn_cursors d w) = getMeteorData w"
  "setState (warn_cursors d w) = setState w"
  "props (warn_cursors d w) = props w"
  "state (warn_cursors d w) = state w"
  "data (warn_cursors d w) = data w"
  "failedToGetData (warn_cursors d w) = failedToGetData w"
  "forceUpdates (warn_cursors d w) = forceUpdates w"
  "stateUpdates (warn_cursors d w) = stateUpdates w"
  "computation (warn_cursors d w) = computation w"
  "oldData (warn_cursors d w) = oldData w"
  "flags (warn_cursors d w) = flags w"
  by (simp_all add: warn_cursors_def flags_def)

lemma warn_cursors_Undefined: "warn_cursors Undefined w = w"
  by (simp add: warn_cursors_def)

lemma calculateData_client:
  assumes c: "\<not> isServer w" and g: "getMeteorData w = Some f"
  shows "calculateData w =
     (Normal (fst (first_run (length (comps w)) ((dispose w)\<lparr>comps := comps (dispose w) @ [new_computation]\<rparr>))),
      warn_cursors (fst (first_run (length (comps w)) ((dispose w)\<lparr>comps := comps (dispose w) @ [new_computation]\<rparr>)))
        ((snd (first_run (length (comps w)) ((dispose w)\<lparr>comps := comps (dispose w) @ [new_computation]\<rparr>)))
           \<lparr>computation := Some (length (comps w))\<rparr>))"
proof -
  have "length (comps (dispose w)) = length (comps w)"
    using dispose_length [of w] by (simp add: flags_def)
  then show ?thesis
    using c g by (simp add: calculateData_def autorun_def Let_def split_beta)
qed

subsection \<open>The patch of updateData\<close>

lemma write_prop_map_of:
  "map_of (fst (write_prop key v dp)) k =
     (if k = key \<and> \<not> (key = ''__proto__'' \<and> key \<notin> fst ` set (fst dp) \<and> has_proto_setter (snd dp))
      then Some v else map_of (fst dp) k)"
  by (auto simp: write_prop_def update_conv')

lemma fold_write_other:
  "k \<notin> set ks \<Longrightarrow>
   map_of (fst (fold (\<lambda>key acc. write_prop key (g key) acc) ks dp)) k = map_of (fst dp) k"
  by (induction ks arbitrary: dp) (auto simp: write_prop_map_of)

lemma fold_write_key:
  "k \<noteq> ''__proto__'' \<Longrightarrow> k \<in> set ks \<Longrightarrow>
   map_of (fst (fold (\<lambda>key acc. write_prop key (g key) acc) ks dp)) k = Some (g k)"
proof (induction ks arbitrary: dp)
  case Nil
  then show ?case by simp
next
  case (Cons x xs)
  show ?case
  proof (cases "k \<in> set xs")
    case True
    then show ?thesis using Cons.IH [OF Cons.prems(1)] by simp
  next
    case False
    then have "k = x" using Cons.prems(2) by simp
    then show ?thesis
      using fold_write_other [OF False, of g "write_prop x (g x) dp"] Cons.prems(1)
      by (simp add: write_prop_map_of)
  qed
qed


lemma write_keys_other:
  "k \<notin> set (forin_keys v) \<Longrightarrow> map_of (fst (write_keys v dp)) k = map_of (fst dp) k"
  by (simp add: write_keys_def fold_write_other)

lemma write_keys_key:
  "k \<noteq> ''__proto__'' \<Longrightarrow> k \<in> set (forin_keys v) \<Longrightarrow>
   map_of (fst (write_keys v dp)) k = Some (get_prop v k)"
  by (simp add: write_keys_def fold_write_key)


lemma write_keys_Obj:
  "k \<noteq> ''__proto__'' \<Longrightarrow>
   map_of (fst (write_keys (Obj c ps) dp)) k =
     (if k \<in> fst ` set ps then map_of ps k else map_of (fst dp) k)"
proof (cases "k \<in> fst ` set ps")
  case True
  assume "k \<noteq> ''__proto__''"
  moreover from True obtain x where "map_of ps k = Some x"
    by (metis domIff dom_map_of_conv_image_fst option.exhaust)
  ultimately show ?thesis using True by (simp add: write_keys_key)
next
  case False
  then show ?thesis by (simp add: write_keys_other)
qed

lemma delete_stale_Obj:
  "delete_stale (Obj c ps) ks d = (Normal (), d') \<Longrightarrow>
   map_of d' k =
     (if k \<in> set ks \<and> k \<notin> fst ` set ps \<and> k \<notin> set (inherited_names c) then None
      else map_of d k)"
  by (induction ks arbitrary: d) (auto simp: delete_conv' split: if_splits)

lemma delete_stale_Obj_Normal: "fst (delete_stale (Obj c ps) ks d) = Normal ()"
  by (induction ks arbitrary: d) auto

lemma updateData_frame:
  "isServer (snd (updateData v w)) = isServer w"
  "mongo (snd (updateData v w)) = mongo w"
  "sources (snd (updateData v w)) = sources w"
  "console (snd (updateData v w)) = console w"
  "comps (snd (updateData v w)) = comps w"
  "pending (snd (updateData v w)) = pending w"
  "getMeteorData (snd (updateData v w)) = getMeteorData w"
  "setState (snd (updateData v w)) = setState w"
  "props (snd (updateData v w)) = props w"
  "state (snd (updateData v w)) = state w"
  "forceUpdates (snd (updateData v w)) = forceUpdates w"
  "stateUpdates (snd (updateData v w)) = stateUpdates w"
  "computation (snd (updateData v w)) = computation w"
  by (simp_all add: updateData_def Let_def split_beta split: outcome.splits)

lemma updateData_fresh:
  "\<not> truthy (oldData w) \<Longrightarrow>
   updateData v w =
     (Normal (),
      w\<lparr>data := fst (write_keys (if v = Undefined then Obj PlainObject [] else v)
                        (data w, dataProto w)),
        dataProto := snd (write_keys (if v = Undefined then Obj PlainObject [] else v)
                        (data w, dataProto w)),
        oldData := (if v = Undefined then Obj PlainObject [] else v),
        failedToGetData := Bool (v = Undefined)\<rparr>)"
  by (simp add: updateData_def Let_def)

lemma updateData_Obj:
  "fst (updateData (Obj c ps) w) = Normal ()"
  "oldData (snd (updateData (Obj c ps) w)) = Obj c ps"
  "failedToGetData (snd (updateData (Obj c ps) w)) = Bool False"
  "k \<noteq> ''__proto__'' \<Longrightarrow>
   map_of (data (snd (updateData (Obj c ps) w))) k =
     (if k \<in> fst ` set ps then map_of ps k
      else if k \<in> stored_keys w \<and> k \<notin> set (inherited_names c) then None
      else map_of (data w) k)"
proof -
  let ?d1 = "fst (write_keys (Obj c ps) (data w, dataProto w))"
  obtain d2 where ds: "delete_stale (Obj c ps) (forin_keys (oldData w)) ?d1 = (Normal (), d2)"
    using delete_stale_Obj_Normal [of c ps "forin_keys (oldData w)" ?d1]
    by (cases "delete_stale (Obj c ps) (forin_keys (oldData w)) ?d1") simp
  show "fst (updateData (Obj c ps) w) = Normal ()"
    "oldData (snd (updateData (Obj c ps) w)) = Obj c ps"
    "failedToGetData (snd (updateData (Obj c ps) w)) = Bool False"
    using ds by (simp_all add: updateData_def Let_def)
  show "map_of (data (snd (updateData (Obj c ps) w))) k =
     (if k \<in> fst ` set ps then map_of ps k
      else if k \<in> stored_keys w \<and> k \<notin> set (inherited_names c) then None
      else map_of (data w) k)"
    if k: "k \<noteq> ''__proto__''"
  proof -
    have m1: "map_of ?d1 k = (if k \<in> fst ` set ps then map_of ps k else map_of (data w) k)"
      using write_keys_Obj [OF k, of c ps "(data w, dataProto w)"] by simp
    show ?thesis
    proof (cases "truthy (oldData w)")
      case True
      then show ?thesis
        using ds delete_stale_Obj [OF ds, of k] m1
        by (simp add: updateData_def Let_def stored_keys_def)
    next
      case False
      then show ?thesis using m1 by (simp add: updateData_def Let_def stored_keys_def)
    qed
  qed
qed

subsection \<open>What calculateData and the hooks leave alone\<close>

lemma calculateData_frame:
  "isServer (snd (calculateData w)) = isServer w"
  "mongo (snd (calculateData w)) = mongo w"
  "sources (snd (calculateData w)) = sources w"
  "pending (snd (calculateData w)) = pending w"
  "getMeteorData (snd (calculateData w)) = getMeteorData w"
  "setState (snd (calculateData w)) = setState w"
  "props (snd (calculateData w)) = props w"
  "state (snd (calculateData w)) = state w"
  "data (snd (calculateData w)) = data w"
  "failedToGetData (snd (calculateData w)) = failedToGetData w"
  "forceUpdates (snd (calculateData w)) = forceUpdates w"
  "oldData (snd (calculateData w)) = oldData w"
proof -
  consider (none) "getMeteorData w = None"
    | (server) f where "getMeteorData w = Some f" "isServer w"
    | (client) f where "getMeteorData w = Some f" "\<not> isServer w"
    by (cases "getMeteorData w") auto
  then have "isServer (snd (calculateData w)) = isServer w \<and>
    mongo (snd (calculateData w)) = mongo w \<and>
    sources (snd (calculateData w)) = sources w \<and>
    pending (snd (calculateData w)) = pending w \<and>
    getMeteorData (snd (calculateData w)) = getMeteorData w \<and>
    setState (snd (calculateData w)) = setState w \<and>
    props (snd (calculateData w)) = props w \<and>
    state (snd (calculateData w)) = state w \<and>
    data (snd (calculateData w)) = data w \<and>
    failedToGetData (snd (calculateData w)) = failedToGetData w \<and>
    forceUpdates (snd (calculateData w)) = forceUpdates w \<and>
    oldData (snd (calculateData w)) = oldData w"
  proof cases
    case none
    then show ?thesis by (simp add: calculateData_def)
  next
    case server
    then show ?thesis using run_fetch_frame [of f None w] by (simp add: calculateData_def)
  next
    case client
    let ?w1 = "(dispose w)\<lparr>comps := comps (dispose w) @ [new_computation]\<rparr>"
    have g: "getMeteorData ?w1 = Some f" using client by (simp add: dispose_frame)
    show ?thesis
      using client
      by (simp add: calculateData_client [OF client(2) client(1)] warn_cursors_frame
            first_run_frame [OF g] dispose_frame)
  qed
  then show "isServer (snd (calculateData w)) = isServer w"
  "mongo (snd (calculateData w)) = mongo w"
  "sources (snd (calculateData w)) = sources w"
  "pending (snd (calculateData w)) = pending w"
  "getMeteorData (snd (calculateData w)) = getMeteorData w"
  "setState (snd (calculateData w)) = setState w"
  "props (snd (calculateData w)) = props w"
  "state (snd (calculateData w)) = state w"
  "data (snd (calculateData w)) = data w"
  "failedToGetData (snd (calculateData w)) = failedToGetData w"
  "forceUpdates (snd (calculateData w)) = forceUpdates w"
  "oldData (snd (calculateData w)) = oldData w"
    by simp_all
qed

lemma componentWillUpdate_cases:
  "snd (componentWillUpdate p s w) =
     (case fst (calculateData (w\<lparr>props := p, state := s\<rparr>)) of
        Thrown e \<Rightarrow> (snd (calculateData (w\<lparr>props := p, state := s\<rparr>)))\<lparr>props := props w, state := state w\<rparr>
      | Normal v \<Rightarrow> snd (updateData v
          ((snd (calculateData (w\<lparr>props := p, state := s\<rparr>)))\<lparr>props := props w, state := state w\<rparr>)))"
  by (simp add: componentWillUpdate_def Let_def split_beta split: outcome.splits)

lemma componentWillUpdate_frame:
  "isServer (snd (componentWillUpdate p s w)) = isServer w"
  "mongo (snd (componentWillUpdate p s w)) = mongo w"
  "sources (snd (componentWillUpdate p s w)) = sources w"
  "pending (snd (componentWillUpdate p s w)) = pending w"
  "getMeteorData (snd (componentWillUpdate p s w)) = getMeteorData w"
  "setState (snd (componentWillUpdate p s w)) = setState w"
  "props (snd (componentWillUpdate p s w)) = props w"
  "state (snd (componentWillUpdate p s w)) = state w"
  "forceUpdates (snd (componentWillUpdate p s w)) = forceUpdates w"
  "comps (snd (componentWillUpdate p s w)) = comps (snd (calculateData (w\<lparr>props := p, state := s\<rparr>)))"
  "computation (snd (componentWillUpdate p s w)) = computation (snd (calculateData (w\<lparr>props := p, state := s\<rparr>)))"
  by (simp_all add: componentWillUpdate_cases updateData_frame calculateData_frame split: outcome.splits)

subsection \<open>Source changes and flushes\<close>

lemma sole_live_cong:
  "flags w' = flags w \<Longrightarrow> computation w' = computation w \<Longrightarrow> sole_live w' = sole_live w"
  by (simp add: sole_live_def live_flags)

lemma flags_updates [simp]:
  "flags (w\<lparr>props := p\<rparr>) = flags w" "flags (w\<lparr>state := s\<rparr>) = flags w"
  "flags (w\<lparr>sources := src\<rparr>) = flags w" "flags (w\<lparr>pending := q\<rparr>) = flags w"
  "flags (w\<lparr>forceUpdates := n\<rparr>) = flags w" "flags (w\<lparr>setState := m\<rparr>) = flags w"
  "flags (w\<lparr>console := l\<rparr>) = flags w"
  by (simp_all add: flags_def)

lemma updateData_flags: "flags (snd (updateData v w)) = flags w"
  by (simp add: flags_def updateData_frame)

lemma fold_invalidate_frame:
  "isServer (fold invalidate cs w) = isServer w \<and>
   mongo (fold invalidate cs w) = mongo w \<and>
   sources (fold invalidate cs w) = sources w \<and>
   console (fold invalidate cs w) = console w \<and>
   getMeteorData (fold invalidate cs w) = getMeteorData w \<and>
   setState (fold invalidate cs w) = setState w \<and>
   props (fold invalidate cs w) = props w \<and>
   state (fold invalidate cs w) = state w \<and>
   data (fold invalidate cs w) = data w \<and>
   failedToGetData (fold invalidate cs w) = failedToGetData w \<and>
   forceUpdates (fold invalidate cs w) = forceUpdates w \<and>
   stateUpdates (fold invalidate cs w) = stateUpdates w \<and>
   computation (fold invalidate cs w) = computation w \<and>
   oldData (fold invalidate cs w) = oldData w \<and>
   flags (fold invalidate cs w) = flags w"
  by (induction cs arbitrary: w) (simp_all add: invalidate_frame invalidate_flags)

lemma source_changed_frame:
  "isServer (source_changed x v w) = isServer w"
  "mongo (source_changed x v w) = mongo w"
  "console (source_changed x v w) = console w"
  "getMeteorData (source_changed x v w) = getMeteorData w"
  "setState (source_changed x v w) = setState w"
  "props (source_changed x v w) = props w"
  "state (source_changed x v w) = state w"
  "data (source_changed x v w) = data w"
  "failedToGetData (source_changed x v w) = failedToGetData w"
  "forceUpdates (source_changed x v w) = forceUpdates w"
  "stateUpdates (source_changed x v w) = stateUpdates w"
  "computation (source_changed x v w) = computation w"
  "oldData (source_changed x v w) = oldData w"
  "flags (source_changed x v w) = flags w"
  by (simp_all add: source_changed_def fold_invalidate_frame)

lemma recompute_frame:
  "isServer (recompute c w) = isServer w"
  "mongo (recompute c w) = mongo w"
  "sources (recompute c w) = sources w"
  "console (recompute c w) = console w"
  "pending (recompute c w) = pending w"
  "getMeteorData (recompute c w) = getMeteorData w"
  "setState (recompute c w) = setState w"
  "props (recompute c w) = props w"
  "state (recompute c w) = state w"
  "data (recompute c w) = data w"
  "failedToGetData (recompute c w) = failedToGetData w"
  "stateUpdates (recompute c w) = stateUpdates w"
  "computation (recompute c w) = computation w"
  "oldData (recompute c w) = oldData w"
  by (simp_all add: recompute_def rerun_def forceUpdate_def Let_def stop_frame stop_pending)

lemma recompute_stopped:
  "c \<ge> length (flags w) \<or> flags w ! c \<Longrightarrow> recompute c w = w"
  by (auto simp: recompute_def flags_def Let_def)

lemma recompute_flags:
  "flags (recompute c w) = flags w \<or> flags (recompute c w) = (flags w)[c := True]"
proof (cases "c < length (comps w) \<and> invalidated (comps w ! c) \<and> \<not> stopped (comps w ! c)")
  case True
  have "flags (w\<lparr>comps := (comps w)[c := (comps w ! c)\<lparr>invalidated := False\<rparr>]\<rparr>) = flags w"
    by (simp add: flags_def map_update map_update_same)
  then show ?thesis using True
    by (simp add: recompute_def rerun_def forceUpdate_def Let_def stop_flags)
next
  case False
  then show ?thesis by (auto simp: recompute_def Let_def)
qed

lemma fold_recompute_frame:
  "isServer (fold recompute cs w) = isServer w \<and>
   mongo (fold recompute cs w) = mongo w \<and>
   sources (fold recompute cs w) = sources w \<and>
   console (fold recompute cs w) = console w \<and>
   pending (fold recompute cs w) = pending w \<and>
   getMeteorData (fold recompute cs w) = getMeteorData w \<and>
   setState (fold recompute cs w) = setState w \<and>
   props (fold recompute cs w) = props w \<and>
   state (fold recompute cs w) = state w \<and>
   data (fold recompute cs w) = data w \<and>
   failedToGetData (fold recompute cs w) = failedToGetData w \<and>
   stateUpdates (fold recompute cs w) = stateUpdates w \<and>
   computation (fold recompute cs w) = computation w \<and>
   oldData (fold recompute cs w) = oldData w"
  by (induction cs arbitrary: w) (simp_all add: recompute_frame)

lemma flush_frame:
  "isServer (flush w) = isServer w"
  "mongo (flush w) = mongo w"
  "sources (flush w) = sources w"
  "console (flush w) = console w"
  "pending (flush w) = []"
  "getMeteorData (flush w) = getMeteorData w"
  "setState (flush w) = setState w"
  "props (flush w) = props w"
  "state (flush w) = state w"
  "data (flush w) = data w"
  "failedToGetData (flush w) = failedToGetData w"
  "stateUpdates (flush w) = stateUpdates w"
  "computation (flush w) = computation w"
  "oldData (flush w) = oldData w"
  by (simp_all add: flush_def fold_recompute_frame)

lemma flags_grow_refl: "flags_grow bs bs"
  by (simp add: flags_grow_def)

lemma flags_grow_trans: "flags_grow a b \<Longrightarrow> flags_grow b c \<Longrightarrow> flags_grow a c"
  by (simp add: flags_grow_def)

lemma flags_grow_update: "flags_grow bs (bs[c := True])"
  by (simp add: flags_grow_def nth_update_True)

lemma recompute_grow: "flags_grow (flags w) (flags (recompute c w))"
  using recompute_flags [of c w] by (auto simp: flags_grow_refl flags_grow_update)

lemma fold_recompute_grow: "flags_grow (flags w) (flags (fold recompute cs w))"
proof (induction cs arbitrary: w)
  case Nil
  show ?case by (simp add: flags_grow_refl)
next
  case (Cons c cs)
  show ?case using flags_grow_trans [OF recompute_grow [of w c] Cons [of "recompute c w"]] by simp
qed

lemma flush_grow: "flags_grow (flags w) (flags (flush w))"
  using fold_recompute_grow [of "w\<lparr>pending := []\<rparr>" "pending w"] by (simp add: flush_def)

lemma sole_live_grow:
  "sole_live w \<Longrightarrow> flags_grow (flags w) (flags w') \<Longrightarrow> computation w' = computation w
   \<Longrightarrow> sole_live w'"
  by (auto simp: sole_live_def set_live flags_grow_def)

subsection \<open>The invariant of the manager\<close>

lemma calculateData_tracker_other:
  "getMeteorData w = None \<or> isServer w \<Longrightarrow>
   flags (snd (calculateData w)) = flags w \<and> computation (snd (calculateData w)) = computation w"
proof (cases "getMeteorData w")
  case None
  then show ?thesis by (simp add: calculateData_def)
next
  case (Some f)
  assume "getMeteorData w = None \<or> isServer w"
  with Some have "isServer w" by simp
  then show ?thesis using Some run_fetch_frame [of f None w] by (simp add: calculateData_def)
qed

lemma calculateData_tracker_client:
  assumes c: "\<not> isServer w" and g: "getMeteorData w = Some f"
  shows "flags (snd (calculateData w)) = flags (dispose w) @ [False]"
    "computation (snd (calculateData w)) = Some (length (comps w))"
proof -
  let ?w1 = "(dispose w)\<lparr>comps := comps (dispose w) @ [new_computation]\<rparr>"
  have g1: "getMeteorData ?w1 = Some f" using g by (simp add: dispose_frame)
  have "flags ?w1 = flags (dispose w) @ [False]"
    by (simp add: flags_def new_computation_def)
  then show "flags (snd (calculateData w)) = flags (dispose w) @ [False]"
    by (simp add: calculateData_client [OF c g] warn_cursors_frame first_run_frame [OF g1])
  show "computation (snd (calculateData w)) = Some (length (comps w))"
    by (simp add: calculateData_client [OF c g] warn_cursors_frame)
qed

lemma live_empty_iff: "live w = [] \<longleftrightarrow> (\<forall>i < length (flags w). flags w ! i)"
  by (auto simp: live_flags filter_empty_conv)

lemma live_new:
  assumes "live w = []" and "flags w' = flags w @ [False]"
  shows "live w' = [length (flags w)]"
proof -
  have "filter (\<lambda>c. \<not> (flags w @ [False]) ! c) [0..<length (flags w)] = []"
    using assms(1) by (auto simp: live_empty_iff filter_empty_conv nth_append)
  then show ?thesis using assms(2) by (simp add: live_flags)
qed

lemma calculateData_client_live:
  assumes "sole_live w" and c: "\<not> isServer w" and g: "getMeteorData w = Some f"
  shows "live (snd (calculateData w)) = [length (comps w)]"
proof -
  have "live (snd (calculateData w)) = [length (flags (dispose w))]"
    using live_new [OF dispose_live [OF assms(1)] calculateData_tracker_client(1) [OF c g]] .
  then show ?thesis by (simp add: dispose_length) (simp add: flags_def)
qed

lemma calculateData_sole_live:
  assumes "sole_live w"
  shows "sole_live (snd (calculateData w))"
proof (cases "getMeteorData w = None \<or> isServer w")
  case True
  then show ?thesis
    using calculateData_tracker_other [OF True] assms sole_live_cong by blast
next
  case False
  then obtain f where g: "getMeteorData w = Some f" and c: "\<not> isServer w" by auto
  show ?thesis
    by (simp add: sole_live_def calculateData_client_live [OF assms c g]
          calculateData_tracker_client(2) [OF c g])
qed

lemma dispose_sole_live: "sole_live w \<Longrightarrow> sole_live (dispose w)"
  by (simp add: sole_live_def dispose_live)

lemma sole_live_props [simp]: "sole_live (w\<lparr>props := p, state := s\<rparr>) = sole_live w"
  by (rule sole_live_cong) simp_all

lemma componentWillUpdate_sole_live:
  assumes "sole_live w"
  shows "sole_live (snd (componentWillUpdate p s w))"
proof -
  have "sole_live (snd (calculateData (w\<lparr>props := p, state := s\<rparr>)))"
    using assms by (simp add: calculateData_sole_live)
  moreover have "flags (snd (componentWillUpdate p s w)) =
      flags (snd (calculateData (w\<lparr>props := p, state := s\<rparr>)))"
    by (simp add: flags_def componentWillUpdate_frame)
  ultimately show ?thesis
    using sole_live_cong componentWillUpdate_frame(11) by blast
qed

lemma step_sole_live: "sole_live w \<Longrightarrow> sole_live (step ev w)"
proof (cases ev)
  case CalculateData
  assume "sole_live w" then show ?thesis using CalculateData by (simp add: calculateData_sole_live)
next
  case (UpdateData v)
  assume "sole_live w" then show ?thesis using UpdateData
    by (simp add: sole_live_cong [OF updateData_flags updateData_frame(13)])
next
  case Dispose
  assume "sole_live w" then show ?thesis using Dispose by (simp add: dispose_sole_live)
next
  case (WillUpdate p s)
  assume "sole_live w" then show ?thesis using WillUpdate by (simp add: componentWillUpdate_sole_live)
next
  case WillUnmount
  assume "sole_live w" then show ?thesis using WillUnmount
    by (simp add: dispose_sole_live componentWillUnmount_def)
next
  case (SourceChanged x v)
  assume "sole_live w" then show ?thesis using SourceChanged
    by (simp add: sole_live_cong [OF source_changed_frame(14) source_changed_frame(12)])
next
  case Flush
  assume "sole_live w" then show ?thesis using Flush
    by (simp add: sole_live_grow [OF _ flush_grow flush_frame(13)])
qed

lemma run_sole_live: "sole_live w \<Longrightarrow> sole_live (run evs w)"
  unfolding run_def by (induction evs arbitrary: w) (simp_all add: step_sole_live)

lemma new_component_sole_live: "sole_live (new_component srv mng src f p s)"
  by (simp add: sole_live_def live_def new_component_def constructor_def)

lemma step_env:
  "isServer (step ev w) = isServer w \<and> getMeteorData (step ev w) = getMeteorData w"
  by (cases ev)
    (simp_all add: calculateData_frame updateData_frame dispose_frame componentWillUpdate_frame
      componentWillUnmount_def source_changed_frame flush_frame)

lemma run_env:
  "isServer (run evs w) = isServer w \<and> getMeteorData (run evs w) = getMeteorData w"
  unfolding run_def by (induction evs arbitrary: w) (simp_all add: step_env)

lemma length_live: "sole_live w \<Longrightarrow> length (live w) \<le> 1"
proof -
  assume a: "sole_live w"
  have d: "distinct (live w)" by (simp add: live_def)
  have "card (set (live w)) \<le> card (set_option (computation w))"
    using a by (intro card_mono) (simp_all add: sole_live_def)
  also have "\<dots> \<le> 1" by (cases "computation w") simp_all
  finally show ?thesis using distinct_card [OF d] by simp
qed

subsection \<open>Results in client mode\<close>

lemma fetch_fails_validated:
  "fetch_fails r \<Longrightarrow> validated r = Undefined \<and>
     failure_log r = [ConsoleError ''Exception from withTracker getMeteorData function:''
                        (logged_exception r)]"
proof (cases r)
  case (Normal v)
  assume "fetch_fails r"
  then show ?thesis using Normal by (cases v) (simp_all add: validated_def failure_log_def)
next
  case (Thrown e)
  then show ?thesis by (simp add: validated_def failure_log_def)
qed

lemma calculateData_client_result:
  assumes c: "\<not> isServer w" and g: "getMeteorData w = Some f"
  shows "fst (calculateData w) =
      Normal (validated (fetch_outcome f (sources w) (props w) (state w) EndlessLoopGuard))"
    "validated (fetch_outcome f (sources w) (props w) (state w) EndlessLoopGuard) = Undefined \<Longrightarrow>
     console (snd (calculateData w)) =
       console w @ failure_log (fetch_outcome f (sources w) (props w) (state w) EndlessLoopGuard)"
    "stateUpdates (snd (calculateData w)) = stateUpdates w"
proof -
  let ?w1 = "(dispose w)\<lparr>comps := comps (dispose w) @ [new_computation]\<rparr>"
  have g1: "getMeteorData ?w1 = Some f" using g by (simp add: dispose_frame)
  show "fst (calculateData w) =
      Normal (validated (fetch_outcome f (sources w) (props w) (state w) EndlessLoopGuard))"
    by (simp add: calculateData_client [OF c g] first_run_eq [OF g1] dispose_frame)
  show "console (snd (calculateData w)) =
       console w @ failure_log (fetch_outcome f (sources w) (props w) (state w) EndlessLoopGuard)"
    if "validated (fetch_outcome f (sources w) (props w) (state w) EndlessLoopGuard) = Undefined"
    using that
    by (simp add: calculateData_client [OF c g] first_run_eq [OF g1] dispose_frame
        warn_cursors_Undefined)
  show "stateUpdates (snd (calculateData w)) = stateUpdates w"
    by (simp add: calculateData_client [OF c g] warn_cursors_frame first_run_frame [OF g1]
        dispose_frame)
qed

lemma updateData_Undefined:
  "updateData Undefined w =
     (fst (updateData (Obj PlainObject []) w),
      (snd (updateData (Obj PlainObject []) w))\<lparr>failedToGetData := Bool True\<rparr>)"
  "fst (updateData Undefined w) = Normal ()"
  "failedToGetData (snd (updateData Undefined w)) = Bool True"
proof -
  show a: "updateData Undefined w =
     (fst (updateData (Obj PlainObject []) w),
      (snd (updateData (Obj PlainObject []) w))\<lparr>failedToGetData := Bool True\<rparr>)"
    by (simp add: updateData_def Let_def split_beta delete_stale_Obj_Normal split: outcome.splits)
  show "fst (updateData Undefined w) = Normal ()"
    by (simp add: a updateData_Obj(1))
  show "failedToGetData (snd (updateData Undefined w)) = Bool True"
    by (simp add: a)
qed

lemma calculateData_None: "getMeteorData w = None \<Longrightarrow> calculateData w = (Normal Null, w)"
  by (simp add: calculateData_def)

lemma calculateData_client_returns: "\<not> isServer w \<Longrightarrow> \<exists>v. fst (calculateData w) = Normal v"
  by (cases "getMeteorData w") (simp_all add: calculateData_None calculateData_client_result(1))





subsection \<open>A component without a fetch function\<close>

lemma write_keys_Null: "write_keys Null d = d"
  by (simp add: write_keys_def)

lemma componentWillMount_opaque: "opaque (snd (componentWillMount srv mng src None p s))"
  by (simp add: componentWillMount_def calculateData_None new_component_def constructor_def
      updateData_fresh write_keys_Null opaque_def)

lemma componentWillUpdate_opaque: "opaque w \<Longrightarrow> opaque (snd (componentWillUpdate p s w))"
  by (simp add: componentWillUpdate_def calculateData_None opaque_def Let_def updateData_fresh
      write_keys_Null)

lemma rounds_opaque: "opaque w \<Longrightarrow> opaque (run (rounds ps) w)"
  unfolding run_def rounds_def
  by (induction ps arbitrary: w) (simp_all add: componentWillUpdate_opaque)

subsection \<open>A component on the server\<close>

lemma calculateData_serverside:
  assumes "serverside f w"
  shows "calculateData w = run_fetch f None w" "serverside f (snd (calculateData w))"
proof -
  show a: "calculateData w = run_fetch f None w"
    using assms by (simp add: serverside_def calculateData_def)
  show "serverside f (snd (calculateData w))"
    using assms run_fetch_frame [of f None w] run_fetch_None_comps [of f w]
    by (simp add: a serverside_def)
qed

lemma serverside_props: "serverside f w \<Longrightarrow> serverside f (w\<lparr>props := p, state := s\<rparr>)"
  by (simp add: serverside_def)

lemma step_serverside: "serverside f w \<Longrightarrow> serverside f (step ev w)"
proof (cases ev)
  case CalculateData
  assume "serverside f w" then show ?thesis using CalculateData
    by (simp add: calculateData_serverside(2))
next
  case (UpdateData v)
  assume "serverside f w" then show ?thesis using UpdateData
    by (simp add: serverside_def updateData_frame)
next
  case Dispose
  assume "serverside f w" then show ?thesis using Dispose
    by (simp add: serverside_def dispose_def)
next
  case (WillUpdate p s)
  assume a: "serverside f w"
  then have "serverside f (snd (calculateData (w\<lparr>props := p, state := s\<rparr>)))"
    by (intro calculateData_serverside(2) serverside_props)
  then show ?thesis using WillUpdate a
    by (simp add: serverside_def componentWillUpdate_frame)
next
  case WillUnmount
  assume "serverside f w" then show ?thesis using WillUnmount
    by (simp add: serverside_def dispose_def componentWillUnmount_def)
next
  case (SourceChanged x v)
  assume "serverside f w" then show ?thesis using SourceChanged
    by (simp add: serverside_def source_changed_def dependents_def)
next
  case Flush
  assume "serverside f w" then show ?thesis using Flush
    by (simp add: serverside_def flush_def)
qed

lemma run_serverside: "serverside f w \<Longrightarrow> serverside f (run evs w)"
  unfolding run_def by (induction evs arbitrary: w) (simp_all add: step_serverside)

lemma new_component_serverside: "serverside f (new_component True mng src (Some f) p s)"
  by (simp add: serverside_def new_component_def constructor_def)

subsection \<open>When every computation is stopped\<close>

lemma fold_recompute_stopped: "live w = [] \<Longrightarrow> fold recompute cs w = w"
proof (induction cs)
  case Nil
  show ?case by simp
next
  case (Cons c cs)
  have "c \<ge> length (flags w) \<or> flags w ! c"
    using Cons.prems by (metis leI live_empty_iff)
  then have "recompute c w = w" by (rule recompute_stopped)
  then show ?case using Cons by simp
qed

lemma flush_stopped: "live w = [] \<Longrightarrow> flush w = w\<lparr>pending := []\<rparr>"
proof -
  assume "live w = []"
  then have "live (w\<lparr>pending := []\<rparr>) = []"
    by (simp add: live_flags)
  then show ?thesis by (simp add: flush_def fold_recompute_stopped)
qed

lemma step_forceUpdates: "ev \<noteq> Flush \<Longrightarrow> forceUpdates (step ev w) = forceUpdates w"
  by (cases ev)
    (simp_all add: calculateData_frame updateData_frame dispose_frame componentWillUpdate_frame
      componentWillUnmount_def source_changed_frame)

lemma quiet_step:
  assumes "live w = []" and "\<not> recomputes ev"
  shows "live (step ev w) = [] \<and> forceUpdates (step ev w) = forceUpdates w"
proof (cases ev)
  case CalculateData
  then show ?thesis using assms by simp
next
  case (UpdateData v)
  then show ?thesis using assms(1)
    by (simp add: live_flags updateData_flags updateData_frame)
next
  case Dispose
  have "sole_live w" using assms(1) by (simp add: sole_live_def)
  then show ?thesis using Dispose by (simp add: dispose_live dispose_frame)
next
  case (WillUpdate p s)
  then show ?thesis using assms by simp
next
  case WillUnmount
  have "sole_live w" using assms(1) by (simp add: sole_live_def)
  then show ?thesis using WillUnmount
    by (simp add: dispose_live dispose_frame componentWillUnmount_def)
next
  case (SourceChanged x v)
  then show ?thesis using assms(1)
    by (simp add: live_flags source_changed_frame)
next
  case Flush
  then show ?thesis using assms(1) by (simp add: flush_stopped live_flags)
qed

lemma quiet_run:
  "live w = [] \<Longrightarrow> \<not> list_ex recomputes evs \<Longrightarrow>
   live (run evs w) = [] \<and> forceUpdates (run evs w) = forceUpdates w"
  unfolding run_def
proof (induction evs arbitrary: w)
  case Nil
  then show ?case by simp
next
  case (Cons ev evs)
  then have q: "\<not> recomputes ev" and r: "\<not> list_ex recomputes evs" by simp_all
  show ?case
    using quiet_step [OF Cons.prems(1) q] Cons.IH [OF _ r, of "step ev w"] by simp
qed

subsection \<open>Stopped for good\<close>

lemma flags_extend_refl: "flags_extend bs bs"
  by (simp add: flags_extend_def)

lemma flags_extend_trans: "flags_extend a b \<Longrightarrow> flags_extend b c \<Longrightarrow> flags_extend a c"
  by (auto simp: flags_extend_def)

lemma flags_grow_extend: "flags_grow a b \<Longrightarrow> flags_extend a b"
  by (simp add: flags_grow_def flags_extend_def)

lemma flags_extend_append: "flags_extend a b \<Longrightarrow> flags_extend a (b @ x)"
  by (auto simp: flags_extend_def nth_append)

lemma dispose_grow: "flags_grow (flags w) (flags (dispose w))"
  by (cases "computation w") (simp_all add: dispose_def stop_flags flags_grow_update flags_grow_refl)

lemma calculateData_extend: "flags_extend (flags w) (flags (snd (calculateData w)))"
proof (cases "getMeteorData w = None \<or> isServer w")
  case True
  then show ?thesis using calculateData_tracker_other [OF True] by (simp add: flags_extend_refl)
next
  case False
  then obtain f where g: "getMeteorData w = Some f" and c: "\<not> isServer w" by auto
  show ?thesis
    using flags_extend_append [OF flags_grow_extend [OF dispose_grow [of w]], of "[False]"]
    by (simp add: calculateData_tracker_client(1) [OF c g])
qed

lemma step_extend: "flags_extend (flags w) (flags (step ev w))"
proof (cases ev)
  case CalculateData
  then show ?thesis by (simp add: calculateData_extend)
next
  case (UpdateData v)
  then show ?thesis by (simp add: updateData_flags flags_extend_refl)
next
  case Dispose
  then show ?thesis by (simp add: flags_grow_extend dispose_grow)
next
  case (WillUpdate p s)
  have "flags (snd (componentWillUpdate p s w)) =
      flags (snd (calculateData (w\<lparr>props := p, state := s\<rparr>)))"
    by (simp add: flags_def componentWillUpdate_frame)
  then show ?thesis
    using WillUpdate calculateData_extend [of "w\<lparr>props := p, state := s\<rparr>"] by simp
next
  case WillUnmount
  then show ?thesis by (simp add: flags_grow_extend dispose_grow componentWillUnmount_def)
next
  case (SourceChanged x v)
  then show ?thesis by (simp add: source_changed_frame flags_extend_refl)
next
  case Flush
  then show ?thesis by (simp add: flags_grow_extend flush_grow)
qed

lemma run_extend: "flags_extend (flags w) (flags (run evs w))"
  unfolding run_def
proof (induction evs arbitrary: w)
  case Nil
  show ?case by (simp add: flags_extend_refl)
next
  case (Cons ev evs)
  show ?case
    using flags_extend_trans [OF step_extend [of w ev] Cons [of "step ev w"]] by simp
qed

lemma stopped_for_good:
  assumes "live w = []" and "c < length (comps w)"
  shows "stopped (comps (run evs w) ! c)"
proof -
  have e: "flags_extend (flags w) (flags (run evs w))" by (rule run_extend)
  have c: "c < length (flags w)" using assms(2) by (simp add: flags_def)
  then have "flags w ! c" using assms(1) by (simp add: live_empty_iff)
  then have "flags (run evs w) ! c" using e c by (simp add: flags_extend_def)
  moreover have "c < length (comps (run evs w))"
    using e c by (simp add: flags_extend_def flags_def)
  ultimately show ?thesis by (simp add: flags_def)
qed

section \<open>The properties\<close>

subsection \<open>Two snapshots in succession\<close>




subsection \<open>A failing fetch function\<close>

text \<open>
  Claim C2. In client mode \<open>calculateData\<close> always returns, whatever the fetch function
  does. When the fetch function, run under the guard, throws or returns \<^verbatim>\<open>null\<close> or a
  value that is not an object, \<open>calculateData\<close> returns \<^verbatim>\<open>undefined\<close> and has written exactly
  one entry to the console, the exception thrown (or the error of line 65); the computation
  it has created is the one the manager holds; \<open>updateData\<close> with that result returns and
  sets the failure flag to true.
\<close>

theorem fetch_failure_contained:
  "\<not> isServer w \<Longrightarrow>
   (\<exists>v. fst (calculateData w) = Normal v) \<and>
   (getMeteorData w = Some f \<and>
    fetch_fails (fetch_outcome f (sources w) (props w) (state w) EndlessLoopGuard) \<longrightarrow>
      fst (calculateData w) = Normal Undefined \<and>
      console (snd (calculateData w)) =
        console w @
        [ConsoleError ''Exception from withTracker getMeteorData function:''
           (logged_exception (fetch_outcome f (sources w) (props w) (state w) EndlessLoopGuard))] \<and>
      computation (snd (calculateData w)) = Some (length (comps w)) \<and>
      fst (updateData Undefined (snd (calculateData w))) = Normal () \<and>
      failedToGetData (snd (updateData Undefined (snd (calculateData w)))) = Bool True)"
proof -
  assume c: "\<not> isServer w"
  let ?r = "fetch_outcome f (sources w) (props w) (state w) EndlessLoopGuard"
  have "fst (calculateData w) = Normal Undefined \<and>
      console (snd (calculateData w)) =
        console w @ [ConsoleError ''Exception from withTracker getMeteorData function:''
           (logged_exception ?r)] \<and>
      computation (snd (calculateData w)) = Some (length (comps w))"
    if g: "getMeteorData w = Some f" and bad: "fetch_fails ?r"
    using fetch_fails_validated [OF bad] calculateData_client_result(1,2) [OF c g]
      calculateData_tracker_client(2) [OF c g] by simp
  moreover have "fst (updateData Undefined (snd (calculateData w))) = Normal () \<and>
      failedToGetData (snd (updateData Undefined (snd (calculateData w)))) = Bool True"
    by (simp add: updateData_Undefined(2,3))
  ultimately show ?thesis using calculateData_client_returns [OF c] by blast
qed

text \<open>A fetch function that throws the string \<^verbatim>\<open>"boom"\<close>.\<close>

theorem fetch_failure_contained_witness:
  "\<not> isServer throwing_component \<and>
   getMeteorData throwing_component = Some (Throw (Str ''boom'')) \<and>
   fetch_fails (fetch_outcome (Throw (Str ''boom'')) (sources throwing_component)
      (props throwing_component) (state throwing_component) EndlessLoopGuard) \<and>
   fst (calculateData throwing_component) = Normal Undefined \<and>
   console (snd (calculateData throwing_component)) =
     [ConsoleError ''Exception from withTracker getMeteorData function:'' (Str ''boom'')] \<and>
   failedToGetData (snd (updateData Undefined (snd (calculateData throwing_component)))) = Bool True"
proof -
  have e: "\<not> isServer throwing_component"
    "getMeteorData throwing_component = Some (Throw (Str ''boom''))"
    "console throwing_component = []"
    by (simp_all add: throwing_component_def new_component_def constructor_def)
  show ?thesis
    using fetch_failure_contained [OF e(1), of "Throw (Str ''boom'')"] e by simp
qed

subsection \<open>At most one live computation\<close>

text \<open>
  Claim C3. After any history of a component (calls of \<open>calculateData\<close> and \<open>dispose\<close>, and
  also the other events), at most one computation is not stopped, and it is the one the
  manager holds. Inside \<open>calculateData\<close> in client mode, no computation is live once lines
  37-40 have run, and exactly the new one is live when it returns.
\<close>

theorem at_most_one_live:
  "length (live (run evs (new_component srv mng src f p s))) \<le> 1 \<and>
   set (live (run evs (new_component srv mng src f p s)))
     \<subseteq> set_option (computation (run evs (new_component srv mng src f p s))) \<and>
   live (dispose (run evs (new_component srv mng src f p s))) = [] \<and>
   (\<not> srv \<and> f \<noteq> None \<longrightarrow>
      live (snd (calculateData (run evs (new_component srv mng src f p s)))) =
        [length (comps (run evs (new_component srv mng src f p s)))] \<and>
      computation (snd (calculateData (run evs (new_component srv mng src f p s)))) =
        Some (length (comps (run evs (new_component srv mng src f p s)))))"
proof -
  let ?w = "run evs (new_component srv mng src f p s)"
  have sl: "sole_live ?w"
    by (rule run_sole_live [OF new_component_sole_live])
  have env: "isServer ?w = srv" "getMeteorData ?w = f"
    by (simp_all add: run_env) (simp_all add: new_component_def constructor_def)
  have "live (snd (calculateData ?w)) = [length (comps ?w)] \<and>
      computation (snd (calculateData ?w)) = Some (length (comps ?w))"
    if "\<not> srv" and "f \<noteq> None"
  proof -
    from that obtain g where g: "getMeteorData ?w = Some g" and c: "\<not> isServer ?w"
      using env by auto
    show ?thesis
      using calculateData_client_live [OF sl c g] calculateData_tracker_client(2) [OF c g] by simp
  qed
  then show ?thesis
    using length_live [OF sl] sl dispose_live [OF sl] by (simp add: sole_live_def)
qed

text \<open>
  A history that has created three computations: two are stopped, the third is the
  manager's; the next \<open>calculateData\<close> replaces it with a fourth.
\<close>

theorem at_most_one_live_witness:
  "\<not> False \<and> Some counter_fetch \<noteq> None \<and>
   live (run busy_history client_component) = [2] \<and>
   computation (run busy_history client_component) = Some 2 \<and>
   live (dispose (run busy_history client_component)) = [] \<and>
   live (snd (calculateData (run busy_history client_component))) = [3]"
proof -
  have e: "live (run busy_history client_component) = [2]"
    "computation (run busy_history client_component) = Some 2"
    "length (comps (run busy_history client_component)) = 3"
    by code_simp+
  show ?thesis
    using at_most_one_live [of busy_history False False no_sources "Some counter_fetch" Null Null] e
    by (simp add: client_component_def)
qed

subsection \<open>The failure flag\<close>




subsection \<open>No fetch function\<close>

text \<open>
  Claim C5. A component without a fetch function is mounted and then recomputed any number
  of times, with any next props and state (each round is \<open>componentWillUpdate\<close>, that is
  \<open>calculateData\<close> followed by \<open>updateData\<close>). \<open>calculateData\<close> returns \<^verbatim>\<open>null\<close>, \<open>data\<close>
  is empty and the failure flag is false throughout.
\<close>

theorem no_fetch_function:
  "fst (calculateData (run (rounds ps) (snd (componentWillMount srv mng src None p s)))) = Normal Null \<and>
   data (run (rounds ps) (snd (componentWillMount srv mng src None p s))) = [] \<and>
   failedToGetData (run (rounds ps) (snd (componentWillMount srv mng src None p s))) = Bool False"
  using rounds_opaque [OF componentWillMount_opaque, of ps srv mng src p s]
  by (simp add: opaque_def calculateData_None)

text \<open>Two rounds after mounting.\<close>

theorem no_fetch_function_witness:
  "data (run (rounds [(Num 1, Null), (Num 2, Str ''s'')]) (snd (componentWillMount False True no_sources None Null Null))) = [] \<and>
   failedToGetData (run (rounds [(Num 1, Null), (Num 2, Str ''s'')]) (snd (componentWillMount False True no_sources None Null Null))) = Bool False \<and>
   fst (calculateData (run (rounds [(Num 1, Null), (Num 2, Str ''s'')]) (snd (componentWillMount False True no_sources None Null Null)))) = Normal Null"
  using no_fetch_function [of "[(Num 1, Null), (Num 2, Str ''s'')]" False True no_sources Null Null]
  by simp

subsection \<open>The guard on the mutator\<close>




subsection \<open>After dispose\<close>

text \<open>
  Claim C7, as amended. After \<open>dispose\<close>, at any point of a component's history, the manager
  holds no computation and none of its computations is live. As long as \<open>calculateData\<close> is
  not called again, whatever sources change afterwards and however often the tracker
  flushes, no re-render is requested. Whatever happens afterwards, a computation registered
  before \<open>dispose\<close> stays stopped, so its body never runs again. \<open>forceUpdate\<close> is called
  nowhere but in a flush.
\<close>

theorem no_forceUpdate_after_dispose:
  "\<not> list_ex recomputes evs \<Longrightarrow>
   forceUpdates (run evs (dispose (run evs0 (new_component srv mng src f p s)))) =
     forceUpdates (run evs0 (new_component srv mng src f p s)) \<and>
   live (run evs (dispose (run evs0 (new_component srv mng src f p s)))) = [] \<and>
   computation (dispose (run evs0 (new_component srv mng src f p s))) = None \<and>
   (c < length (comps (dispose (run evs0 (new_component srv mng src f p s)))) \<longrightarrow>
      stopped (comps (run evs' (dispose (run evs0 (new_component srv mng src f p s)))) ! c)) \<and>
   (ev \<noteq> Flush \<longrightarrow> forceUpdates (step ev w) = forceUpdates w)"
proof -
  assume q: "\<not> list_ex recomputes evs"
  let ?w = "run evs0 (new_component srv mng src f p s)"
  have sl: "sole_live ?w"
    by (rule run_sole_live [OF new_component_sole_live])
  have d: "live (dispose ?w) = []" using sl by (rule dispose_live)
  show ?thesis
    using quiet_run [OF d q] step_forceUpdates [of ev w] stopped_for_good [OF d, of c evs']
    by (simp add: dispose_frame dispose_computation)
qed

text \<open>
  A computation that is invalidated and queued: a flush would request a re-render, but after
  \<open>dispose\<close> neither that flush nor a later change does.
\<close>

theorem no_forceUpdate_after_dispose_witness:
  "\<not> list_ex recomputes later_changes \<and>
   pending (run tracked_history client_component) = [0] \<and>
   forceUpdates (run [Flush] (run tracked_history client_component)) = 1 \<and>
   forceUpdates (run tracked_history client_component) = 0 \<and>
   forceUpdates (run later_changes (dispose (run tracked_history client_component))) = 0 \<and>
   stopped (comps (run busy_history (dispose (run tracked_history client_component))) ! 0)"
proof -
  have e: "\<not> list_ex recomputes later_changes"
    "pending (run tracked_history client_component) = [0]"
    "forceUpdates (run [Flush] (run tracked_history client_component)) = 1"
    "forceUpdates (run tracked_history client_component) = 0"
    "0 < length (comps (dispose (run tracked_history client_component)))"
    by code_simp+
  show ?thesis
    using no_forceUpdate_after_dispose [OF e(1), of tracked_history False False no_sources
        "Some counter_fetch" Null Null 0 busy_history] e
    by (simp add: client_component_def)
qed

text \<open>
  The claim as stated has no re-render ever after \<open>dispose\<close>. A \<open>calculateData\<close> after it
  registers a new computation, and a change of its source makes the next flush request one.
\<close>

theorem forceUpdate_after_dispose_counterexample:
  "forceUpdates (dispose (run tracked_history client_component)) = 0 \<and>
   forceUpdates (run after_teardown (dispose (run tracked_history client_component))) = 1"
  by code_simp

subsection \<open>On the server\<close>

text \<open>
  Claim C8. On the server, at any point of a component's history, \<open>calculateData\<close> is the
  run of the fetch function with no current computation, its result included; so is a second
  call right after it. The tracker's registry is empty and the manager holds no computation
  before and after.
\<close>

theorem server_mode_untracked:
  "calculateData (run evs (new_component True mng src (Some f) p s)) =
     run_fetch f None (run evs (new_component True mng src (Some f) p s)) \<and>
   calculateData (snd (calculateData (run evs (new_component True mng src (Some f) p s)))) =
     run_fetch f None (snd (calculateData (run evs (new_component True mng src (Some f) p s)))) \<and>
   comps (run evs (new_component True mng src (Some f) p s)) = [] \<and>
   computation (run evs (new_component True mng src (Some f) p s)) = None \<and>
   comps (snd (calculateData (snd (calculateData (run evs (new_component True mng src (Some f) p s)))))) = [] \<and>
   computation (snd (calculateData (snd (calculateData (run evs (new_component True mng src (Some f) p s)))))) = None"
proof -
  let ?w = "run evs (new_component True mng src (Some f) p s)"
  have s0: "serverside f ?w"
    by (rule run_serverside [OF new_component_serverside])
  have s1: "serverside f (snd (calculateData ?w))"
    using s0 by (rule calculateData_serverside)
  have s2: "serverside f (snd (calculateData (snd (calculateData ?w))))"
    using s1 by (rule calculateData_serverside)
  show ?thesis
    using calculateData_serverside(1) [OF s0] calculateData_serverside(1) [OF s1] s0 s2
    by (simp add: serverside_def)
qed

text \<open>Two calls on the server for a fetch function that reads a reactive source.\<close>

theorem server_mode_untracked_witness:
  "fst (calculateData server_component) = Normal (Obj PlainObject [(''count'', Undefined)]) \<and>
   fst (calculateData (snd (calculateData server_component))) =
     Normal (Obj PlainObject [(''count'', Undefined)]) \<and>
   comps (snd (calculateData (snd (calculateData server_component)))) = [] \<and>
   computation (snd (calculateData (snd (calculateData server_component)))) = None"
proof -
  have e: "fst (calculateData server_component) = Normal (Obj PlainObject [(''count'', Undefined)])"
    "fst (calculateData (snd (calculateData server_component))) =
      Normal (Obj PlainObject [(''count'', Undefined)])"
    by code_simp+
  have t: "comps (snd (calculateData (snd (calculateData server_component)))) = [] \<and>
      computation (snd (calculateData (snd (calculateData server_component)))) = None"
    using server_mode_untracked [of "[]" False no_sources counter_fetch Null Null]
    unfolding server_component_def run_def fold_simps by blast
  show ?thesis using e t by blast
qed

subsection \<open>Two calls in a row\<close>

text \<open>
  Claim C9. In client mode, at any point of a component's history, two calls of
  \<open>calculateData\<close> in a row return the same value; the second call registers one new
  computation, which is afterwards the only live one and the one the manager holds.
\<close>

theorem calculateData_twice:
  "(\<exists>v. fst (calculateData (run evs (new_component False mng src (Some f) p s))) = Normal v) \<and>
   fst (calculateData (snd (calculateData (run evs (new_component False mng src (Some f) p s))))) =
     fst (calculateData (run evs (new_component False mng src (Some f) p s))) \<and>
   length (comps (snd (calculateData (run evs (new_component False mng src (Some f) p s))))) =
     Suc (length (comps (run evs (new_component False mng src (Some f) p s)))) \<and>
   live (snd (calculateData (snd (calculateData (run evs (new_component False mng src (Some f) p s)))))) =
     [length (comps (snd (calculateData (run evs (new_component False mng src (Some f) p s)))))] \<and>
   computation (snd (calculateData (snd (calculateData (run evs (new_component False mng src (Some f) p s)))))) =
     Some (length (comps (snd (calculateData (run evs (new_component False mng src (Some f) p s))))))"
proof -
  let ?w = "run evs (new_component False mng src (Some f) p s)"
  let ?w1 = "snd (calculateData ?w)"
  have sl: "sole_live ?w"
    by (rule run_sole_live [OF new_component_sole_live])
  have c: "\<not> isServer ?w" and g: "getMeteorData ?w = Some f"
    by (simp_all add: run_env) (simp_all add: new_component_def constructor_def)
  have sl1: "sole_live ?w1" using sl by (rule calculateData_sole_live)
  have c1: "\<not> isServer ?w1" and g1: "getMeteorData ?w1 = Some f"
    using c g by (simp_all add: calculateData_frame)
  have "length (flags ?w1) = Suc (length (flags ?w))"
    by (simp add: calculateData_tracker_client(1) [OF c g] dispose_length)
  then have len: "length (comps ?w1) = Suc (length (comps ?w))"
    by (simp add: flags_def)
  have same: "fst (calculateData ?w1) = fst (calculateData ?w)"
    by (simp add: calculateData_client_result(1) [OF c g] calculateData_client_result(1) [OF c1 g1]
        calculateData_frame)
  show ?thesis
    using calculateData_client_returns [OF c] same len
      calculateData_client_live [OF sl1 c1 g1] calculateData_tracker_client(2) [OF c1 g1]
    by simp
qed

text \<open>The fifth computation of a component, after a history that created three.\<close>

theorem calculateData_twice_witness:
  "fst (calculateData (run busy_history client_component)) = Normal (Obj PlainObject [(''count'', Num 1)]) \<and>
   fst (calculateData (snd (calculateData (run busy_history client_component)))) =
     Normal (Obj PlainObject [(''count'', Num 1)]) \<and>
   live (snd (calculateData (snd (calculateData (run busy_history client_component))))) = [4] \<and>
   computation (snd (calculateData (snd (calculateData (run busy_history client_component))))) = Some 4"
proof -
  have e: "fst (calculateData (run busy_history client_component)) =
      Normal (Obj PlainObject [(''count'', Num 1)])"
    "length (comps (snd (calculateData (run busy_history client_component)))) = 4"
    by code_simp+
  show ?thesis
    using calculateData_twice [of busy_history False no_sources counter_fetch Null Null] e
    by (simp add: client_component_def)
qed

subsection \<open>When nothing is deleted\<close>




end
